theory Spec2Isabelle
  imports
    Complex_Main
    "HOL-Library.AList"
    "HOL-Library.Char_ord"
    "HOL-Library.List_Lexorder"
    "HOL-Library.Product_Lexorder"
    "HOL-Library.Multiset"
    "HOL-Library.Sublist"
    "HOL-Library.Monad_Syntax"
begin

section \<open>Go maps\<close>

text \<open>
  A Go map is modelled as an association list with one entry per key. Reading is
  \<^const>\<open>map_of\<close>, writing is \<^const>\<open>AList.update\<close> (an existing key keeps its place, a
  new key goes to the end) and \<open>delete\<close> is \<^const>\<open>AList.delete\<close>. A \<open>range\<close> loop over
  the map visits the list in its order. Go leaves the iteration order of a map open, so
  a statement that is to hold for every iteration order is proved for every list that
  holds the same entries.

  Strings are compared as Go compares them, byte by byte (the lexicographic order on
  \<^typ>\<open>string\<close>). Weights are \<open>float64\<close> in the source and \<^typ>\<open>real\<close> here: rounding,
  infinities and NaN are outside the model.
\<close>

definition inner :: "('k \<times> ('j \<times> 'v) list) list \<Rightarrow> 'k \<Rightarrow> ('j \<times> 'v) list" where
  \<comment> \<open>\<open>m[k]\<close> of a map of maps: a missing key reads as the nil map, which is empty.\<close>
  "inner m k = (case map_of m k of None \<Rightarrow> [] | Some mm \<Rightarrow> mm)"

definition del2 :: "('k \<times> ('j \<times> 'v) list) list \<Rightarrow> 'k \<Rightarrow> 'j \<Rightarrow> ('k \<times> ('j \<times> 'v) list) list" where
  \<comment> \<open>\<open>delete(m[k], j)\<close>: deleting from the nil map does nothing.\<close>
  "del2 m k j =
     (case map_of m k of None \<Rightarrow> m | Some mm \<Rightarrow> AList.update k (AList.delete j mm) m)"

definition put2 ::
  "('k \<times> ('j \<times> 'v) list) list \<Rightarrow> 'k \<Rightarrow> 'j \<Rightarrow> 'v \<Rightarrow> ('k \<times> ('j \<times> 'v) list) list option" where
  \<comment> \<open>\<open>m[k][j] = v\<close>: assigning into the nil map panics (\<open>None\<close>).\<close>
  "put2 m k j v =
     (case map_of m k of None \<Rightarrow> None
      | Some mm \<Rightarrow> Some (AList.update k (AList.update j v mm) m))"

section \<open>Metadata store (store.go)\<close>

text \<open>
  A store value has Go's type \<open>any\<close>. The model keeps the dynamic types that the code
  tells apart in its type switches; every other dynamic type is \<open>VOther\<close>.
\<close>

datatype intkind =
  KInt | KInt8 | KInt16 | KInt32 | KInt64 | KUint | KUint8 | KUint16 | KUint32 | KUint64

datatype floatkind = KFloat32 | KFloat64

datatype slicekind = SliceAny | SliceString | SliceInt | SliceFloat64 | SliceBool | SliceOther

datatype mapkind = MapAny | MapString | MapInt | MapOther

datatype goval =
    VNil
  | VString string
  | VBool bool
  | VInt intkind int
  | VFloat floatkind real
  | VBytes "nat list"
  | VSlice slicekind "goval list"
  | VMap mapkind "(string \<times> goval) list"
  | VNumber "real option"
      \<comment> \<open>a value with a method \<open>Float64() (float64, error)\<close>; \<open>None\<close> when it returns an error\<close>
  | VOther

type_synonym FieldType = string

definition FieldString :: FieldType where "FieldString = ''string''"
definition FieldInt :: FieldType where "FieldInt = ''int''"
definition FieldFloat :: FieldType where "FieldFloat = ''float''"
definition FieldBool :: FieldType where "FieldBool = ''bool''"
definition FieldBytes :: FieldType where "FieldBytes = ''bytes''"
definition FieldSlice :: FieldType where "FieldSlice = ''slice''"
definition FieldMap :: FieldType where "FieldMap = ''map''"
definition FieldAny :: FieldType where "FieldAny = ''any''"

lemmas FieldType_defs =
  FieldString_def FieldInt_def FieldFloat_def FieldBool_def FieldBytes_def
  FieldSlice_def FieldMap_def FieldAny_def

record FieldDef =
  Type :: FieldType
  Required :: bool

type_synonym Schema = "(string \<times> FieldDef) list"

record Store =
  entries :: "(string \<times> goval) list"
  schema :: "Schema option"  \<comment> \<open>\<open>None\<close> is the nil schema\<close>

definition NewStore :: Store where
  "NewStore = \<lparr>entries = [], schema = None\<rparr>"

definition Set_store :: "Store \<Rightarrow> string \<Rightarrow> goval \<Rightarrow> Store" where
  "Set_store s key v = s\<lparr>entries := AList.update key v (entries s)\<rparr>"

definition Get :: "Store \<Rightarrow> string \<Rightarrow> goval option" where
  "Get s key = map_of (entries s) key"

definition Delete :: "Store \<Rightarrow> string \<Rightarrow> bool \<times> Store" where
  "Delete s key =
     (if map_of (entries s) key \<noteq> None
      then (True, s\<lparr>entries := AList.delete key (entries s)\<rparr>)
      else (False, s))"

definition Has :: "Store \<Rightarrow> string \<Rightarrow> bool" where
  "Has s key = (map_of (entries s) key \<noteq> None)"

definition Len :: "Store \<Rightarrow> nat" where
  "Len s = length (entries s)"

definition Keys :: "Store \<Rightarrow> string list" where
  "Keys s = sort (map fst (entries s))"

definition SetSchema :: "Store \<Rightarrow> Schema option \<Rightarrow> Store" where
  "SetSchema s sch = s\<lparr>schema := sch\<rparr>"

definition GetSchema :: "Store \<Rightarrow> Schema option" where
  "GetSchema s = schema s"

definition Copy_store :: "Store \<Rightarrow> Store" where
  \<comment> \<open>both maps are copied entry by entry into new maps; a nil schema stays nil\<close>
  "Copy_store s =
     \<lparr>entries = fold (\<lambda>(k, v). AList.update k v) (entries s) [],
      schema = map_option (\<lambda>sch. fold (\<lambda>(k, v). AList.update k v) sch []) (schema s)\<rparr>"

fun matchesType :: "goval \<Rightarrow> FieldType \<Rightarrow> bool" where
  "matchesType val ft =
     (if ft = FieldString then (case val of VString _ \<Rightarrow> True | _ \<Rightarrow> False)
      else if ft = FieldInt then (case val of VInt _ _ \<Rightarrow> True | _ \<Rightarrow> False)
      else if ft = FieldFloat then (case val of VFloat _ _ \<Rightarrow> True | _ \<Rightarrow> False)
      else if ft = FieldBool then (case val of VBool _ \<Rightarrow> True | _ \<Rightarrow> False)
      else if ft = FieldBytes then (case val of VBytes _ \<Rightarrow> True | _ \<Rightarrow> False)
      else if ft = FieldSlice then
        (case val of
           VSlice k _ \<Rightarrow> k \<in> {SliceAny, SliceString, SliceInt, SliceFloat64, SliceBool}
         | VBytes _ \<Rightarrow> True
         | _ \<Rightarrow> False)
      else if ft = FieldMap then
        (case val of VMap k _ \<Rightarrow> k \<in> {MapAny, MapString, MapInt} | _ \<Rightarrow> False)
      else if ft = FieldAny then True
      else False)"

datatype verror =
    MissingRequired string  \<comment> \<open>\<open>missing required field %q\<close>\<close>
  | WrongType string FieldType goval  \<comment> \<open>\<open>field %q: expected type %s, got %T\<close>\<close>

definition check_field :: "Store \<Rightarrow> Schema \<Rightarrow> string \<Rightarrow> verror list" where
  \<comment> \<open>the body of the loop of \<open>Validate\<close> for one schema key\<close>
  "check_field s sch key =
     (case map_of sch key of
        None \<Rightarrow> []
      | Some d \<Rightarrow>
          (case map_of (entries s) key of
             None \<Rightarrow> (if Required d then [MissingRequired key] else [])
           | Some val \<Rightarrow>
               (if Type d = FieldAny then []
                else if \<not> matchesType val (Type d) then [WrongType key (Type d) val]
                else [])))"

definition Validate :: "Store \<Rightarrow> verror list" where
  \<comment> \<open>the nil result is the empty list\<close>
  "Validate s =
     (case schema s of
        None \<Rightarrow> []
      | Some sch \<Rightarrow> concat (map (check_field s sch) (sort (map fst sch))))"

section \<open>Graph (graph.go)\<close>

record 'n Node =
  ID :: string
  Data :: 'n

record 'e Edge =
  From :: string
  To :: string
  Data :: 'e
  Weight :: real

text \<open>
  Modelled from the spec: the fields \<open>nodeMeta\<close> and \<open>edgeMeta\<close>. The file graph.go
  among the sources declares \<open>Graph\<close> with four fields, \<open>Directed\<close>, \<open>nodes\<close>, \<open>out\<close>
  and \<open>in\<close>: it is the file as it was before the metadata layer, and none of its
  operations reads or writes metadata. \<open>Marshal\<close>, \<open>Unmarshal\<close>, \<open>Subgraph\<close> and the
  metadata tests are written against a later declaration, which is not among the
  sources: they use two further fields, \<open>nodeMeta\<close> and \<open>edgeMeta\<close>. The spec gives every
  existing node and every existing edge one metadata store, created on first access;
  the two fields are added to the record with the types their uses show
  (\<open>map[string]*Store\<close> and \<open>map[string]map[string]*Store\<close>), so that the functions that
  use them can be modelled. The operations of graph.go are modelled as the source has
  them, on the four declared fields.
\<close>

record ('n, 'e) Graph =
  Directed :: bool
  nodes :: "(string \<times> 'n Node) list"
  out :: "(string \<times> (string \<times> 'e Edge) list) list"  \<comment> \<open>from -> to -> edge\<close>
  inn :: "(string \<times> (string \<times> 'e Edge) list) list"  \<comment> \<open>the field \<open>in\<close>: to -> from -> edge\<close>
  nodeMeta :: "(string \<times> Store) list"
  edgeMeta :: "(string \<times> (string \<times> Store) list) list"

definition NewGraph :: "bool \<Rightarrow> ('n, 'e) Graph" where
  "NewGraph directed =
     \<lparr>Directed = directed, nodes = [], out = [], inn = [], nodeMeta = [], edgeMeta = []\<rparr>"

definition AddNode :: "('n, 'e) Graph \<Rightarrow> string \<Rightarrow> 'n \<Rightarrow> ('n, 'e) Graph" where
  "AddNode g id' data =
     g\<lparr>nodes := AList.update id' \<lparr>Node.ID = id', Node.Data = data\<rparr> (nodes g),
       out := (if map_of (out g) id' = None then AList.update id' [] (out g) else out g),
       inn := (if map_of (inn g) id' = None then AList.update id' [] (inn g) else inn g)\<rparr>"

definition GetNode :: "('n, 'e) Graph \<Rightarrow> string \<Rightarrow> 'n Node option" where
  "GetNode g id' = map_of (nodes g) id'"

definition GetEdge :: "('n, 'e) Graph \<Rightarrow> string \<Rightarrow> string \<Rightarrow> 'e Edge option" where
  "GetEdge g from to =
     (case map_of (out g) from of Some m \<Rightarrow> map_of m to | None \<Rightarrow> None)"

definition HasNode :: "('n, 'e) Graph \<Rightarrow> string \<Rightarrow> bool" where
  "HasNode g id' = (map_of (nodes g) id' \<noteq> None)"

definition HasEdge :: "('n, 'e) Graph \<Rightarrow> string \<Rightarrow> string \<Rightarrow> bool" where
  "HasEdge g from to =
     (case map_of (out g) from of Some m \<Rightarrow> map_of m to \<noteq> None | None \<Rightarrow> False)"

datatype TaskState = Pending | Ready | Running | Done | Failed | Skipped

datatype error =
    NodeNotFound string  \<comment> \<open>\<open>node %q not found\<close>\<close>
  | NilMapPanic  \<comment> \<open>the runtime panic of an assignment into a nil map\<close>
  | TaskNotFound string  \<comment> \<open>\<open>task %q not found\<close>\<close>
  | InvalidTaskTransition TaskState TaskState string
      \<comment> \<open>\<open>invalid transition from %s to %s for task %q\<close>\<close>
  | GraphNotOpen string  \<comment> \<open>\<open>graph %q not open\<close>\<close>
  | InvalidTransition string string  \<comment> \<open>\<open>invalid transition: %q -> %q\<close>\<close>
  | SourceNotFound  \<comment> \<open>\<open>source node not found\<close>\<close>
  | DestinationNotFound  \<comment> \<open>\<open>destination node not found\<close>\<close>
  | NoPath  \<comment> \<open>\<open>no path found\<close>\<close>
  | BadJSON  \<comment> \<open>an error of \<open>json.Unmarshal\<close>\<close>
  | MarshalFailed  \<comment> \<open>an error of \<open>json.Marshal\<close>\<close>
  | UnsupportedVersion int  \<comment> \<open>\<open>unsupported version: %d\<close>\<close>
  | UnmarshalEdge string string error  \<comment> \<open>\<open>unmarshal edge %s->%s: %w\<close>\<close>

definition AddEdge ::
  "('n, 'e) Graph \<Rightarrow> string \<Rightarrow> string \<Rightarrow> 'e \<Rightarrow> real \<Rightarrow> error + ('n, 'e) Graph" where
  "AddEdge g from to data weight =
     (if \<not> HasNode g from then Inl (NodeNotFound from)
      else if \<not> HasNode g to then Inl (NodeNotFound to)
      else
        let e = \<lparr>Edge.From = from, Edge.To = to, Edge.Data = data, Weight = weight\<rparr> in
        (case put2 (out g) from to e of
           None \<Rightarrow> Inl NilMapPanic
         | Some out1 \<Rightarrow>
             (case put2 (inn g) to from e of
                None \<Rightarrow> Inl NilMapPanic
              | Some inn1 \<Rightarrow>
                  if Directed g then Inr (g\<lparr>out := out1, inn := inn1\<rparr>)
                  else
                    let rev = \<lparr>Edge.From = to, Edge.To = from, Edge.Data = data, Weight = weight\<rparr> in
                    (case put2 out1 to from rev of
                       None \<Rightarrow> Inl NilMapPanic
                     | Some out2 \<Rightarrow>
                         (case put2 inn1 from to rev of
                            None \<Rightarrow> Inl NilMapPanic
                          | Some inn2 \<Rightarrow> Inr (g\<lparr>out := out2, inn := inn2\<rparr>))))))"

definition RemoveNode :: "('n, 'e) Graph \<Rightarrow> string \<Rightarrow> ('n, 'e) Graph" where
  "RemoveNode g id' =
     (if \<not> HasNode g id' then g
      else
        let inn1 = fold (\<lambda>to m. del2 m to id') (map fst (inner (out g) id')) (inn g);
            out1 = fold (\<lambda>from m. del2 m from id') (map fst (inner inn1 id')) (out g)
        in g\<lparr>out := AList.delete id' out1,
              inn := AList.delete id' inn1,
              nodes := AList.delete id' (nodes g)\<rparr>)"

definition RemoveEdge :: "('n, 'e) Graph \<Rightarrow> string \<Rightarrow> string \<Rightarrow> ('n, 'e) Graph" where
  "RemoveEdge g from to =
     (let out1 = del2 (out g) from to;
          inn1 = del2 (inn g) to from
      in if Directed g then g\<lparr>out := out1, inn := inn1\<rparr>
         else g\<lparr>out := del2 out1 to from, inn := del2 inn1 from to\<rparr>)"

definition Neighbors :: "('n, 'e) Graph \<Rightarrow> string \<Rightarrow> string list" where
  "Neighbors g id' = sort (map fst (inner (out g) id'))"

definition OutEdges :: "('n, 'e) Graph \<Rightarrow> string \<Rightarrow> 'e Edge list" where
  "OutEdges g id' = map snd (inner (out g) id')"

definition InEdges :: "('n, 'e) Graph \<Rightarrow> string \<Rightarrow> 'e Edge list" where
  "InEdges g id' = map snd (inner (inn g) id')"

definition Nodes :: "('n, 'e) Graph \<Rightarrow> 'n Node list" where
  \<comment> \<open>\<open>sort.Slice\<close> by ID; node IDs are pairwise different, so every sorting
      algorithm returns the same slice\<close>
  "Nodes g = sort_key Node.ID (map snd (nodes g))"

definition Order :: "('n, 'e) Graph \<Rightarrow> nat" where
  "Order g = length (nodes g)"

section \<open>Task scheduler (task.go)\<close>

record 't Task =
  ID :: string
  Data :: 't
  State :: TaskState

definition validTransitions :: "(TaskState \<times> TaskState list) list" where
  "validTransitions =
     [(Pending, [Ready, Skipped]),
      (Ready, [Running, Skipped]),
      (Running, [Done, Failed])]"

text \<open>The mutex of a \<open>TaskGraph\<close> serialises its operations; each one is modelled as a
  function from the graph before to the graph after.\<close>

record 't TaskGraph =
  graph :: "('t Task, unit) Graph"

definition NewTaskGraph :: "'t TaskGraph" where
  "NewTaskGraph = \<lparr>graph = NewGraph True\<rparr>"

definition AddTask :: "'t TaskGraph \<Rightarrow> string \<Rightarrow> 't \<Rightarrow> 't TaskGraph" where
  "AddTask tg id' data =
     tg\<lparr>graph := AddNode (graph tg) id' \<lparr>Task.ID = id', Task.Data = data, State = Pending\<rparr>\<rparr>"

definition AddDependency :: "'t TaskGraph \<Rightarrow> string \<Rightarrow> string \<Rightarrow> error option \<times> 't TaskGraph" where
  "AddDependency tg from to =
     (case AddEdge (graph tg) to from () 0 of
        Inl err \<Rightarrow> (Some err, tg)
      | Inr g' \<Rightarrow> (None, tg\<lparr>graph := g'\<rparr>))"

definition allDepsDone :: "'t TaskGraph \<Rightarrow> string \<Rightarrow> bool" where
  "allDepsDone tg id' =
     list_all
       (\<lambda>e. case GetNode (graph tg) (From e) of
               None \<Rightarrow> False
             | Some dep \<Rightarrow> State (Node.Data dep) = Done)
       (InEdges (graph tg) id')"

definition ready_step :: "'t Task Node \<Rightarrow> 't TaskGraph \<times> 't Task list \<Rightarrow> 't TaskGraph \<times> 't Task list" where
  \<comment> \<open>one round of the loop of \<open>readyLocked\<close>\<close>
  "ready_step n = (\<lambda>(tg, ready).
     let task = Node.Data n;
         promote = (State task = Pending \<and> allDepsDone tg (Task.ID task));
         task1 = (if promote then task\<lparr>State := Ready\<rparr> else task);
         tg1 = (if promote then tg\<lparr>graph := AddNode (graph tg) (Task.ID task1) task1\<rparr> else tg)
     in (tg1, if State task1 = Ready then ready @ [task1] else ready))"

definition readyLocked :: "'t TaskGraph \<Rightarrow> 't Task list \<times> 't TaskGraph" where
  "readyLocked tg = (let (tg', ready) = fold ready_step (Nodes (graph tg)) (tg, []) in (ready, tg'))"

definition transitionLocked ::
  "'t TaskGraph \<Rightarrow> string \<Rightarrow> TaskState \<Rightarrow> error option \<times> 't TaskGraph" where
  "transitionLocked tg id' newState =
     (case GetNode (graph tg) id' of
        None \<Rightarrow> (Some (TaskNotFound id'), tg)
      | Some n \<Rightarrow>
          let task = Node.Data n;
              allowed = (case map_of validTransitions (State task) of None \<Rightarrow> [] | Some a \<Rightarrow> a)
          in if newState \<in> set allowed
             then (None, tg\<lparr>graph := AddNode (graph tg) id' (task\<lparr>State := newState\<rparr>)\<rparr>)
             else (Some (InvalidTaskTransition (State task) newState id'), tg))"

definition Transition_task ::
  "'t TaskGraph \<Rightarrow> string \<Rightarrow> TaskState \<Rightarrow> error option \<times> 't TaskGraph" where
  \<comment> \<open>\<open>TaskGraph.Transition\<close>\<close>
  "Transition_task tg id' newState = transitionLocked tg id' newState"

definition GetTask :: "'t TaskGraph \<Rightarrow> string \<Rightarrow> 't Task option" where
  "GetTask tg id' = map_option Node.Data (GetNode (graph tg) id')"

section \<open>Manager transitions (api/transition.go)\<close>

record api_NodeData =
  Label :: string
  Status :: string

record api_EdgeData =
  ELabel :: string  \<comment> \<open>the field \<open>Label\<close> of \<open>api.EdgeData\<close>\<close>

record TransitionRequest =
  Graph :: string
  ID :: string
  Status :: string

record TransitionResult =
  ID :: string
  OldStatus :: string
  NewStatus :: string
  NewlyReady :: "string list"

record Manager =
  dir :: string
  graphs :: "(string \<times> (api_NodeData, api_EdgeData) Graph) list"

definition validTransitions_api :: "(string \<times> (string \<times> bool) list) list" where
  "validTransitions_api =
     [([], [(''pending'', True), (''ready'', True)]),
      (''pending'', [(''ready'', True), (''skipped'', True)]),
      (''ready'', [(''running'', True), (''skipped'', True)]),
      (''running'', [(''done'', True), (''failed'', True)]),
      (''failed'', [(''pending'', True)])]"

definition getGraph :: "Manager \<Rightarrow> string \<Rightarrow> error + (api_NodeData, api_EdgeData) Graph" where
  "getGraph m name =
     (case map_of (graphs m) name of
        None \<Rightarrow> Inl (GraphNotOpen name)
      | Some g \<Rightarrow> Inr g)"

definition deps_all_done :: "(api_NodeData, api_EdgeData) Graph \<Rightarrow> string \<Rightarrow> bool" where
  \<comment> \<open>the inner loop of \<open>Transition\<close> that computes \<open>allDone\<close>\<close>
  "deps_all_done g id' =
     list_all
       (\<lambda>inEdge. case GetNode g (From inEdge) of
                    None \<Rightarrow> False
                  | Some dep \<Rightarrow> api_NodeData.Status (Node.Data dep) = ''done'')
       (InEdges g id')"

definition propagate ::
  "api_EdgeData Edge \<Rightarrow> (api_NodeData, api_EdgeData) Graph \<times> string list
     \<Rightarrow> (api_NodeData, api_EdgeData) Graph \<times> string list" where
  \<comment> \<open>one round of the loop over \<open>g.OutEdges(req.ID)\<close>\<close>
  "propagate outEdge = (\<lambda>(g, newly).
     case GetNode g (To outEdge) of
       None \<Rightarrow> (g, newly)
     | Some downstream \<Rightarrow>
         if api_NodeData.Status (Node.Data downstream) \<noteq> ''pending'' then (g, newly)
         else if deps_all_done g (To outEdge)
         then (AddNode g (To outEdge) ((Node.Data downstream)\<lparr>api_NodeData.Status := ''ready''\<rparr>),
               newly @ [To outEdge])
         else (g, newly))"

definition Transition :: "Manager \<Rightarrow> TransitionRequest \<Rightarrow> (error + TransitionResult) \<times> Manager" where
  "Transition m req =
     (case getGraph m (Graph req) of
        Inl err \<Rightarrow> (Inl err, m)
      | Inr g \<Rightarrow>
          (case GetNode g (TransitionRequest.ID req) of
             None \<Rightarrow> (Inl (NodeNotFound (TransitionRequest.ID req)), m)
           | Some node \<Rightarrow>
               let oldStatus = api_NodeData.Status (Node.Data node);
                   newStatus = TransitionRequest.Status req
               in (case map_of validTransitions_api oldStatus of
                     None \<Rightarrow> (Inl (InvalidTransition oldStatus newStatus), m)
                   | Some allowed \<Rightarrow>
                       if \<not> (case map_of allowed newStatus of None \<Rightarrow> False | Some b \<Rightarrow> b)
                       then (Inl (InvalidTransition oldStatus newStatus), m)
                       else
                         let g1 = AddNode g (TransitionRequest.ID req)
                                    ((Node.Data node)\<lparr>api_NodeData.Status := newStatus\<rparr>);
                             (g2, newly) =
                               (if newStatus = ''done''
                                then fold propagate (OutEdges g1 (TransitionRequest.ID req)) (g1, [])
                                else (g1, []))
                         in (Inr \<lparr>TransitionResult.ID = TransitionRequest.ID req, OldStatus = oldStatus,
                                   NewStatus = newStatus, NewlyReady = newly\<rparr>,
                             m\<lparr>graphs := AList.update (Graph req) g2 (graphs m)\<rparr>))))"

section \<open>Frame of AddNode\<close>

lemma inner_AddNode_out: "inner (out (AddNode g i d)) x = inner (out g) x"
  by (simp add: AddNode_def inner_def update_conv')

lemma inner_AddNode_inn: "inner (inn (AddNode g i d)) x = inner (inn g) x"
  by (simp add: AddNode_def inner_def update_conv')

lemma OutEdges_AddNode: "OutEdges (AddNode g i d) x = OutEdges g x"
  by (simp add: OutEdges_def inner_AddNode_out)

lemma InEdges_AddNode: "InEdges (AddNode g i d) x = InEdges g x"
  by (simp add: InEdges_def inner_AddNode_inn)

lemma Neighbors_AddNode: "Neighbors (AddNode g i d) x = Neighbors g x"
  by (simp add: Neighbors_def inner_AddNode_out)

lemma GetEdge_AddNode: "GetEdge (AddNode g i d) f t = GetEdge g f t"
  by (simp add: GetEdge_def AddNode_def update_conv' split: option.splits)

lemma HasEdge_AddNode: "HasEdge (AddNode g i d) f t = HasEdge g f t"
  by (simp add: HasEdge_def AddNode_def update_conv' split: option.splits)

lemma GetNode_AddNode:
  "GetNode (AddNode g i d) x = (if x = i then Some \<lparr>Node.ID = i, Node.Data = d\<rparr> else GetNode g x)"
  by (simp add: GetNode_def AddNode_def update_conv')

lemma HasNode_AddNode: "HasNode (AddNode g i d) x = (x = i \<or> HasNode g x)"
  by (simp add: HasNode_def AddNode_def update_conv')

lemma meta_AddNode:
  "nodeMeta (AddNode g i d) = nodeMeta g" "edgeMeta (AddNode g i d) = edgeMeta g"
  "Directed (AddNode g i d) = Directed g"
  by (simp_all add: AddNode_def)

text \<open>
  C9. Re-adding a node that is already present changes only that node's payload:
  \<open>HasEdge\<close>, \<open>GetEdge\<close>, \<open>Neighbors\<close>, \<open>InEdges\<close> and \<open>OutEdges\<close> answer as before for
  all IDs, every other node is as before, and the metadata stores stay attached.
\<close>

theorem AddNode_existing_frame:
  assumes "HasNode g i"
  shows "(\<forall>f t. HasEdge (AddNode g i d) f t = HasEdge g f t
            \<and> GetEdge (AddNode g i d) f t = GetEdge g f t)
       \<and> (\<forall>x. Neighbors (AddNode g i d) x = Neighbors g x
            \<and> InEdges (AddNode g i d) x = InEdges g x
            \<and> OutEdges (AddNode g i d) x = OutEdges g x
            \<and> HasNode (AddNode g i d) x = HasNode g x
            \<and> (if x = i then GetNode (AddNode g i d) x = Some \<lparr>Node.ID = i, Node.Data = d\<rparr>
               else GetNode (AddNode g i d) x = GetNode g x))
       \<and> nodeMeta (AddNode g i d) = nodeMeta g
       \<and> edgeMeta (AddNode g i d) = edgeMeta g
       \<and> Directed (AddNode g i d) = Directed g"
  using assms
  by (auto simp: HasEdge_AddNode GetEdge_AddNode Neighbors_AddNode InEdges_AddNode
      OutEdges_AddNode HasNode_AddNode GetNode_AddNode meta_AddNode)

definition g_one :: "(nat, unit) Graph" where
  \<comment> \<open>\<open>g := NewGraph(true); g.AddNode("a", 1)\<close>\<close>
  "g_one = AddNode (NewGraph True) ''a'' 1"

theorem AddNode_existing_frame_witness:
  "HasNode g_one ''a''
   \<and> GetNode (AddNode g_one ''a'' 2) ''a'' = Some \<lparr>Node.ID = ''a'', Node.Data = 2\<rparr>
   \<and> OutEdges (AddNode g_one ''a'' 2) ''a'' = OutEdges g_one ''a''
   \<and> nodeMeta (AddNode g_one ''a'' 2) = nodeMeta g_one"
proof -
  have h: "HasNode g_one ''a''"
    by (simp add: g_one_def HasNode_AddNode)
  from AddNode_existing_frame [OF h, of 2] h show ?thesis
    by simp
qed

section \<open>The transition tables\<close>

lemma Transition_task_table:
  "GetNode (graph tg) i = Some tn \<Longrightarrow>
     ((fst (Transition_task tg i s) = None) \<longleftrightarrow>
        (State (Node.Data tn), s) \<in>
          {(Pending, Ready), (Pending, Skipped), (Ready, Running), (Ready, Skipped),
           (Running, Done), (Running, Failed)})
   \<and> ((State (Node.Data tn), s) \<notin>
          {(Pending, Ready), (Pending, Skipped), (Ready, Running), (Ready, Skipped),
           (Running, Done), (Running, Failed)} \<longrightarrow>
        Transition_task tg i s = (Some (InvalidTaskTransition (State (Node.Data tn)) s i), tg))"
  by (cases "State (Node.Data tn)"; cases s)
     (simp_all add: Transition_task_def transitionLocked_def validTransitions_def Let_def)

lemma Transition_table:
  "map_of (graphs m) (Graph req) = Some g \<Longrightarrow> GetNode g (TransitionRequest.ID req) = Some n \<Longrightarrow>
     ((\<exists>res m'. Transition m req = (Inr res, m')) \<longleftrightarrow>
        (api_NodeData.Status (Node.Data n), TransitionRequest.Status req) \<in>
          {([], ''pending''), ([], ''ready''), (''pending'', ''ready''), (''pending'', ''skipped''),
           (''ready'', ''running''), (''ready'', ''skipped''), (''running'', ''done''),
           (''running'', ''failed''), (''failed'', ''pending'')})
   \<and> ((api_NodeData.Status (Node.Data n), TransitionRequest.Status req) \<notin>
          {([], ''pending''), ([], ''ready''), (''pending'', ''ready''), (''pending'', ''skipped''),
           (''ready'', ''running''), (''ready'', ''skipped''), (''running'', ''done''),
           (''running'', ''failed''), (''failed'', ''pending'')} \<longrightarrow>
        Transition m req =
          (Inl (InvalidTransition (api_NodeData.Status (Node.Data n)) (TransitionRequest.Status req)), m))"
  by (auto simp: Transition_def getGraph_def validTransitions_api_def Let_def
        split: option.splits prod.splits if_splits)

text \<open>
  C1 (as amended). The two transition operations do not share one table. For a node
  of an open graph, the Manager's \<open>Transition\<close> succeeds exactly on the nine pairs
  blank->pending, blank->ready, pending->ready, pending->skipped, ready->running,
  ready->skipped, running->done, running->failed, failed->pending. For a task of a
  \<open>TaskGraph\<close>, the library's \<open>Transition\<close> succeeds exactly on the six pairs
  Pending->Ready, Pending->Skipped, Ready->Running, Ready->Skipped, Running->Done,
  Running->Failed: it has no blank state and no retry from Failed. On every other pair
  each operation returns its invalid-transition error and leaves the state as it was.
\<close>

theorem transition_tables:
  "(map_of (graphs m) (Graph req) = Some g \<and> GetNode g (TransitionRequest.ID req) = Some n \<longrightarrow>
      ((\<exists>res m'. Transition m req = (Inr res, m')) \<longleftrightarrow>
         (api_NodeData.Status (Node.Data n), TransitionRequest.Status req) \<in>
           {([], ''pending''), ([], ''ready''), (''pending'', ''ready''), (''pending'', ''skipped''),
            (''ready'', ''running''), (''ready'', ''skipped''), (''running'', ''done''),
            (''running'', ''failed''), (''failed'', ''pending'')})
      \<and> ((api_NodeData.Status (Node.Data n), TransitionRequest.Status req) \<notin>
           {([], ''pending''), ([], ''ready''), (''pending'', ''ready''), (''pending'', ''skipped''),
            (''ready'', ''running''), (''ready'', ''skipped''), (''running'', ''done''),
            (''running'', ''failed''), (''failed'', ''pending'')} \<longrightarrow>
         Transition m req =
           (Inl (InvalidTransition (api_NodeData.Status (Node.Data n)) (TransitionRequest.Status req)), m)))
   \<and> (GetNode (graph tg) i = Some tn \<longrightarrow>
      ((fst (Transition_task tg i s) = None) \<longleftrightarrow>
         (State (Node.Data tn), s) \<in>
           {(Pending, Ready), (Pending, Skipped), (Ready, Running), (Ready, Skipped),
            (Running, Done), (Running, Failed)})
      \<and> ((State (Node.Data tn), s) \<notin>
           {(Pending, Ready), (Pending, Skipped), (Ready, Running), (Ready, Skipped),
            (Running, Done), (Running, Failed)} \<longrightarrow>
         Transition_task tg i s = (Some (InvalidTaskTransition (State (Node.Data tn)) s i), tg)))"
  by (rule conjI; rule impI; (erule conjE)?; rule Transition_table Transition_task_table; assumption)

definition tg_failed :: "unit TaskGraph" where
  \<comment> \<open>\<open>AddTask("a")\<close>, \<open>Ready()\<close>, then \<open>Transition("a", Running)\<close> and
      \<open>Transition("a", Failed)\<close>\<close>
  "tg_failed =
     snd (Transition_task
            (snd (Transition_task (snd (readyLocked (AddTask NewTaskGraph ''a'' ()))) ''a'' Running))
            ''a'' Failed)"

definition m_pending :: Manager where
  \<comment> \<open>a manager with the open graph \<open>t\<close> that holds the node \<open>a\<close> in status pending\<close>
  "m_pending =
     \<lparr>dir = ''graphs'',
      graphs = [(''t'', AddNode (NewGraph True) ''a'' \<lparr>Label = [], api_NodeData.Status = ''pending''\<rparr>)]\<rparr>"

lemma tg_failed_task:
  "GetNode (graph tg_failed) ''a''
     = Some \<lparr>Node.ID = ''a'', Node.Data = \<lparr>Task.ID = ''a'', Task.Data = (), State = Failed\<rparr>\<rparr>"
  by code_simp

theorem transition_tables_counterexample:
  "GetTask tg_failed ''a'' = Some \<lparr>Task.ID = ''a'', Task.Data = (), State = Failed\<rparr>
   \<and> Transition_task tg_failed ''a'' Pending
       = (Some (InvalidTaskTransition Failed Pending ''a''), tg_failed)"
  by code_simp

theorem transition_tables_witness:
  "map_of (graphs m_pending) ''t''
     = Some (AddNode (NewGraph True) ''a'' \<lparr>Label = [], api_NodeData.Status = ''pending''\<rparr>)
   \<and> Transition m_pending \<lparr>Graph = ''t'', TransitionRequest.ID = ''a'', TransitionRequest.Status = ''done''\<rparr>
       = (Inl (InvalidTransition ''pending'' ''done''), m_pending)
   \<and> (\<exists>res m'. Transition m_pending
          \<lparr>Graph = ''t'', TransitionRequest.ID = ''a'', TransitionRequest.Status = ''ready''\<rparr> = (Inr res, m'))
   \<and> fst (Transition_task tg_failed ''a'' Pending) \<noteq> None"
proof -
  let ?g = "AddNode (NewGraph True) ''a'' \<lparr>Label = [], api_NodeData.Status = ''pending''\<rparr>
              :: (api_NodeData, api_EdgeData) Graph"
  let ?n = "\<lparr>Node.ID = ''a'', Node.Data = \<lparr>Label = [], api_NodeData.Status = ''pending''\<rparr>\<rparr>"
  have h1: "map_of (graphs m_pending) ''t'' = Some ?g"
    by (simp add: m_pending_def)
  have h2: "GetNode ?g ''a'' = Some ?n"
    by (simp add: GetNode_AddNode)
  from transition_tables
         [of m_pending "\<lparr>Graph = ''t'', TransitionRequest.ID = ''a'', TransitionRequest.Status = ''done''\<rparr>"
             ?g ?n tg_failed "''a''" _ Pending]
       transition_tables
         [of m_pending "\<lparr>Graph = ''t'', TransitionRequest.ID = ''a'', TransitionRequest.Status = ''ready''\<rparr>"
             ?g ?n tg_failed "''a''" _ Pending]
       h1 h2 tg_failed_task
  show ?thesis
    by simp
qed

section \<open>Schema validation\<close>

lemma check_field_Nil:
  "check_field s sch key = [] \<longleftrightarrow>
     (case map_of sch key of None \<Rightarrow> True
      | Some d \<Rightarrow> (case Get s key of None \<Rightarrow> \<not> Required d
                    | Some v \<Rightarrow> Type d = FieldAny \<or> matchesType v (Type d)))"
  by (simp add: check_field_def Get_def split: option.splits)

lemma Validate_Nil:
  assumes "schema s = Some sch"
  shows "Validate s = [] \<longleftrightarrow>
       (\<forall>key d. map_of sch key = Some d \<longrightarrow>
          (case Get s key of None \<Rightarrow> \<not> Required d
           | Some v \<Rightarrow> Type d = FieldAny \<or> matchesType v (Type d)))"
proof -
  have "Validate s = [] \<longleftrightarrow> (\<forall>key \<in> fst ` set sch. check_field s sch key = [])"
    using assms by (simp add: Validate_def)
  also have "\<dots> \<longleftrightarrow> (\<forall>key d. map_of sch key = Some d \<longrightarrow>
          (case Get s key of None \<Rightarrow> \<not> Required d
           | Some v \<Rightarrow> Type d = FieldAny \<or> matchesType v (Type d)))"
  proof (intro iffI allI impI ballI)
    fix key d
    assume a: "\<forall>key \<in> fst ` set sch. check_field s sch key = []" and m: "map_of sch key = Some d"
    from m have "key \<in> fst ` set sch"
      by (metis map_of_eq_None_iff option.distinct(1))
    with a have "check_field s sch key = []" by blast
    with m show "case Get s key of None \<Rightarrow> \<not> Required d
           | Some v \<Rightarrow> Type d = FieldAny \<or> matchesType v (Type d)"
      by (simp add: check_field_Nil del: matchesType.simps)
  next
    fix key
    assume a: "\<forall>key d. map_of sch key = Some d \<longrightarrow>
          (case Get s key of None \<Rightarrow> \<not> Required d
           | Some v \<Rightarrow> Type d = FieldAny \<or> matchesType v (Type d))"
    show "check_field s sch key = []"
      using a by (cases "map_of sch key") (simp_all add: check_field_Nil del: matchesType.simps)
  qed
  finally show ?thesis .
qed

lemma check_field_unknown:
  "map_of sch k = None \<Longrightarrow> check_field (Set_store s k v) sch = check_field s sch"
  by (rule ext) (auto simp: check_field_def Set_store_def update_conv' split: option.splits)

lemma Validate_unknown:
  assumes "schema s = Some sch" "map_of sch k = None"
  shows "Validate (Set_store s k v) = Validate s"
proof -
  have "schema (Set_store s k v) = Some sch"
    using assms by (simp add: Set_store_def)
  then show ?thesis
    using assms by (simp add: Validate_def check_field_unknown)
qed

text \<open>
  C6 (as amended). For a store with a schema, \<open>Validate\<close> returns the empty (nil) list
  if and only if every schema field is either absent and not required, or present with
  a value that matches its declared type (the type \<open>any\<close> matches every value): a field
  that is present is checked against its type whether or not it is required. Keys the
  schema does not mention never produce an error: setting such a key to any value
  leaves the result of \<open>Validate\<close> as it was.
\<close>

theorem Validate_open_world:
  "schema s = Some sch \<longrightarrow>
     ((Validate s = [] \<longleftrightarrow>
        (\<forall>key d. map_of sch key = Some d \<longrightarrow>
           (case Get s key of None \<Rightarrow> \<not> Required d
            | Some v \<Rightarrow> Type d = FieldAny \<or> matchesType v (Type d))))
      \<and> (\<forall>k v. map_of sch k = None \<longrightarrow> Validate (Set_store s k v) = Validate s))"
  using Validate_Nil [of s sch] Validate_unknown [of s sch]
  by (intro impI conjI allI) assumption+

definition s_optional :: Store where
  \<comment> \<open>from \<open>TestStoreValidateTypes\<close>: the schema field \<open>s\<close> is a string and not
      required, and the store holds \<open>s = 123\<close>\<close>
  "s_optional =
     Set_store (SetSchema NewStore (Some [(''s'', \<lparr>Type = FieldString, Required = False\<rparr>)]))
       ''s'' (VInt KInt 123)"

definition s_open :: Store where
  \<comment> \<open>from \<open>TestStoreValidateOpenWorld\<close>\<close>
  "s_open =
     Set_store (SetSchema NewStore (Some [(''name'', \<lparr>Type = FieldString, Required = True\<rparr>)]))
       ''name'' (VString ''alice'')"

theorem Validate_open_world_counterexample:
  "\<not> ((Validate s_optional = []) \<longleftrightarrow>
        (\<forall>key d. map_of (the (schema s_optional)) key = Some d \<and> Required d \<longrightarrow>
           (\<exists>v. Get s_optional key = Some v \<and> matchesType v (Type d))))"
  by (simp add: s_optional_def Validate_def check_field_def Set_store_def SetSchema_def
      NewStore_def FieldType_defs Get_def)

theorem Validate_open_world_witness:
  "schema s_open = Some [(''name'', \<lparr>Type = FieldString, Required = True\<rparr>)]
   \<and> Validate s_open = []
   \<and> Validate (Set_store s_open ''extra'' (VInt KInt 999)) = []"
proof -
  have h: "schema s_open = Some [(''name'', \<lparr>Type = FieldString, Required = True\<rparr>)]"
    by (simp add: s_open_def Set_store_def SetSchema_def NewStore_def)
  have v: "Validate s_open = []"
    by (simp add: s_open_def Validate_def check_field_def Set_store_def SetSchema_def
        NewStore_def FieldType_defs)
  from Validate_open_world [of s_open "[(''name'', \<lparr>Type = FieldString, Required = True\<rparr>)]"] h
  have "Validate (Set_store s_open ''extra'' (VInt KInt 999)) = Validate s_open"
    by simp
  with h v show ?thesis
    by simp
qed

section \<open>Node filters (api/filter.go)\<close>

record MetaFilter =
  Key :: string
  Op :: string
  Value :: goval

definition toFloat64 :: "goval \<Rightarrow> real \<times> bool" where
  "toFloat64 v =
     (case v of
        VFloat k n \<Rightarrow> (n, True)
      | VInt k n \<Rightarrow> (if k \<in> {KInt, KInt64, KInt32} then (real_of_int n, True) else (0, False))
      | VNumber r \<Rightarrow> (case r of Some f \<Rightarrow> (f, True) | None \<Rightarrow> (0, False))
      | _ \<Rightarrow> (0, False))"

definition compareFloat :: "goval \<Rightarrow> goval \<Rightarrow> bool \<Rightarrow> int" where
  "compareFloat a b found =
     (if \<not> found then - 2
      else
        let (af, ok1) = toFloat64 a;
            (bf, ok2) = toFloat64 b
        in if \<not> ok1 \<or> \<not> ok2 then - 2
           else if af < bf then - 1
           else if af > bf then 1
           else 0)"

text \<open>
  \<open>fmt.Sprintf("%v", v)\<close> belongs to the Go standard library; \<open>matchFilter\<close> takes it as
  the parameter \<open>sprint\<close>. \<open>strings.Contains(s, sub)\<close> is \<^term>\<open>sublist sub s\<close>. The store
  is a pointer in the source and may be nil (\<open>None\<close>).
\<close>

definition matchFilter ::
  "(goval \<Rightarrow> string) \<Rightarrow> Store option \<Rightarrow> api_NodeData \<Rightarrow> MetaFilter \<Rightarrow> bool" where
  "matchFilter sprint store data f =
     (let (val, found) =
            (if Key f = ''status'' then (VString (api_NodeData.Status data), True)
             else if Key f = ''label'' then (VString (Label data), True)
             else (case store of
                     None \<Rightarrow> (VNil, False)
                   | Some st \<Rightarrow>
                       (case Get st (Key f) of None \<Rightarrow> (VNil, False) | Some v \<Rightarrow> (v, True))))
      in if Op f = ''exists'' then found
         else if Op f = ''eq'' then (if \<not> found then False else sprint val = sprint (Value f))
         else if Op f = ''neq'' then (if \<not> found then True else sprint val \<noteq> sprint (Value f))
         else if Op f = ''contains'' then
           (if \<not> found then False else sublist (sprint (Value f)) (sprint val))
         else if Op f = ''gt'' then compareFloat val (Value f) found > 0
         else if Op f = ''gte'' then compareFloat val (Value f) found \<ge> 0
         else if Op f = ''lt'' then compareFloat val (Value f) found < 0
         else if Op f = ''lte'' then compareFloat val (Value f) found \<le> 0
         else False)"

text \<open>
  C10. For a filter whose key is neither \<open>status\<close> nor \<open>label\<close> and is absent from the
  node's metadata store (or the store is nil), the operator \<open>neq\<close> evaluates to true and
  the operator \<open>eq\<close> to false; a filter with an unknown operator evaluates to false,
  whatever its key.
\<close>

theorem matchFilter_absent_key:
  "(Key f \<notin> {''status'', ''label''}
      \<and> (case store of None \<Rightarrow> True | Some st \<Rightarrow> \<not> Has st (Key f)) \<longrightarrow>
        (Op f = ''neq'' \<longrightarrow> matchFilter sprint store data f)
      \<and> (Op f = ''eq'' \<longrightarrow> \<not> matchFilter sprint store data f))
   \<and> (Op f \<notin> {''exists'', ''eq'', ''neq'', ''contains'', ''gt'', ''gte'', ''lt'', ''lte''} \<longrightarrow>
        \<not> matchFilter sprint store data f)"
  by (auto simp: matchFilter_def Has_def Get_def split: option.splits)

definition sprint_string :: "goval \<Rightarrow> string" where
  \<comment> \<open>\<open>%v\<close> of a string is the string itself; other values are not needed below\<close>
  "sprint_string v = (case v of VString x \<Rightarrow> x | _ \<Rightarrow> [])"

theorem matchFilter_absent_key_witness:
  "\<not> Has (Set_store NewStore ''tag'' (VString ''core'')) ''owner''
   \<and> matchFilter sprint_string (Some (Set_store NewStore ''tag'' (VString ''core'')))
        \<lparr>Label = ''Alpha'', api_NodeData.Status = ''done''\<rparr>
        \<lparr>Key = ''owner'', Op = ''neq'', Value = VString ''x''\<rparr>
   \<and> \<not> matchFilter sprint_string (Some (Set_store NewStore ''tag'' (VString ''core'')))
        \<lparr>Label = ''Alpha'', api_NodeData.Status = ''done''\<rparr>
        \<lparr>Key = ''owner'', Op = ''eq'', Value = VString ''x''\<rparr>
   \<and> \<not> matchFilter sprint_string (Some (Set_store NewStore ''tag'' (VString ''core'')))
        \<lparr>Label = ''Alpha'', api_NodeData.Status = ''done''\<rparr>
        \<lparr>Key = ''tag'', Op = ''like'', Value = VString ''core''\<rparr>"
proof -
  let ?st = "Set_store NewStore ''tag'' (VString ''core'')"
  let ?d = "\<lparr>Label = ''Alpha'', api_NodeData.Status = ''done''\<rparr>"
  have h: "\<not> Has ?st ''owner''"
    by (simp add: Has_def Set_store_def NewStore_def)
  from matchFilter_absent_key
         [of "\<lparr>Key = ''owner'', Op = ''neq'', Value = VString ''x''\<rparr>" "Some ?st" sprint_string ?d]
       matchFilter_absent_key
         [of "\<lparr>Key = ''owner'', Op = ''eq'', Value = VString ''x''\<rparr>" "Some ?st" sprint_string ?d]
       matchFilter_absent_key
         [of "\<lparr>Key = ''tag'', Op = ''like'', Value = VString ''core''\<rparr>" "Some ?st" sprint_string ?d]
       h
  show ?thesis
    by simp
qed

section \<open>Readiness propagation\<close>

definition pending_in :: "(api_NodeData, api_EdgeData) Graph \<Rightarrow> string \<Rightarrow> bool" where
  "pending_in g x = (case GetNode g x of None \<Rightarrow> False
                     | Some nd \<Rightarrow> api_NodeData.Status (Node.Data nd) = ''pending'')"

definition promotable :: "(api_NodeData, api_EdgeData) Graph \<Rightarrow> string \<Rightarrow> bool" where
  "promotable g x = (pending_in g x \<and> deps_all_done g x)"

definition made_ready :: "(api_NodeData, api_EdgeData) Graph \<Rightarrow> string \<Rightarrow> api_NodeData Node option" where
  "made_ready g x =
     map_option (\<lambda>nd. \<lparr>Node.ID = x, Node.Data = (Node.Data nd)\<lparr>api_NodeData.Status := ''ready''\<rparr>\<rparr>)
       (GetNode g x)"

lemma propagate_eq:
  "propagate e (g, nw) =
     (if promotable g (To e)
      then (AddNode g (To e) ((Node.Data (the (GetNode g (To e))))\<lparr>api_NodeData.Status := ''ready''\<rparr>),
            nw @ [To e])
      else (g, nw))"
  by (auto simp: propagate_def promotable_def pending_in_def split: option.splits)

lemma deps_all_done_AddNode:
  assumes "pending_in g d" "api_NodeData.Status nd' \<noteq> ''done''"
  shows "deps_all_done (AddNode g d nd') x = deps_all_done g x"
proof -
  have eq: "\<And>ie. (case GetNode (AddNode g d nd') (From ie) of None \<Rightarrow> False
               | Some dep \<Rightarrow> api_NodeData.Status (Node.Data dep) = ''done'')
            = (case GetNode g (From ie) of None \<Rightarrow> False
               | Some dep \<Rightarrow> api_NodeData.Status (Node.Data dep) = ''done'')"
    using assms by (auto simp: GetNode_AddNode pending_in_def split: option.splits)
  show ?thesis
    by (simp add: deps_all_done_def InEdges_AddNode eq)
qed

lemma promotable_after:
  assumes "promotable g d"
  shows "promotable (AddNode g d ((Node.Data (the (GetNode g d)))\<lparr>api_NodeData.Status := ''ready''\<rparr>)) x
           = (x \<noteq> d \<and> promotable g x)"
  using assms
  by (auto simp: promotable_def deps_all_done_AddNode)
     (auto simp: pending_in_def GetNode_AddNode split: if_splits option.splits)

lemma fold_propagate:
  "fold propagate es (g, nw) = (g', nw') \<Longrightarrow>
     (\<forall>x. GetNode g' x =
           (if x \<in> To ` set es \<and> promotable g x then made_ready g x else GetNode g x))
     \<and> set nw' = set nw \<union> {x \<in> To ` set es. promotable g x}
     \<and> (\<forall>x. InEdges g' x = InEdges g x) \<and> (\<forall>x. OutEdges g' x = OutEdges g x)
     \<and> nodeMeta g' = nodeMeta g \<and> edgeMeta g' = edgeMeta g \<and> Directed g' = Directed g"
proof (induction es arbitrary: g nw)
  case Nil
  then show ?case by simp
next
  case (Cons e es)
  show ?case
  proof (cases "promotable g (To e)")
    case False
    with Cons.prems have "fold propagate es (g, nw) = (g', nw')"
      by (simp add: propagate_eq)
    from Cons.IH [OF this] False show ?thesis
      by auto
  next
    case True
    let ?g1 = "AddNode g (To e) ((Node.Data (the (GetNode g (To e))))\<lparr>api_NodeData.Status := ''ready''\<rparr>)"
    from True Cons.prems have "fold propagate es (?g1, nw @ [To e]) = (g', nw')"
      by (simp add: propagate_eq)
    note IH = Cons.IH [OF this]
    have p: "\<And>x. promotable ?g1 x = (x \<noteq> To e \<and> promotable g x)"
      using True by (rule promotable_after)
    have g1: "\<And>x. GetNode ?g1 x = (if x = To e then made_ready g x else GetNode g x)"
      using True
      by (auto simp: GetNode_AddNode made_ready_def promotable_def pending_in_def split: option.splits)
    have mr: "\<And>x. x \<noteq> To e \<Longrightarrow> made_ready ?g1 x = made_ready g x"
      by (simp add: made_ready_def GetNode_AddNode)
    show ?thesis
    proof (intro conjI allI)
      fix x
      show "GetNode g' x =
           (if x \<in> To ` set (e # es) \<and> promotable g x then made_ready g x else GetNode g x)"
        using IH True by (auto simp: p g1 mr)
      show "InEdges g' x = InEdges g x" using IH by (simp add: InEdges_AddNode)
      show "OutEdges g' x = OutEdges g x" using IH by (simp add: OutEdges_AddNode)
    next
      show "set nw' = set nw \<union> {x \<in> To ` set (e # es). promotable g x}"
        using IH True by (auto simp: p)
    qed (use IH in \<open>simp_all add: meta_AddNode\<close>)
  qed
qed


definition status_in :: "(api_NodeData, api_EdgeData) Graph \<Rightarrow> string \<Rightarrow> string option" where
  "status_in g x = map_option (\<lambda>nd. api_NodeData.Status (Node.Data nd)) (GetNode g x)"

definition newly_ready_node ::
  "(api_NodeData, api_EdgeData) Graph \<Rightarrow> (api_NodeData, api_EdgeData) Graph \<Rightarrow> string \<Rightarrow> string \<Rightarrow> bool" where
  "newly_ready_node g g' n d =
     ((\<exists>e \<in> set (OutEdges g n). To e = d)
      \<and> status_in g d = Some ''pending''
      \<and> (\<forall>ie \<in> set (InEdges g' d). status_in g' (From ie) = Some ''done''))"

lemma Transition_done_unfold:
  assumes "map_of (graphs m) (Graph req) = Some g"
    and "TransitionRequest.Status req = ''done''"
    and "Transition m req = (Inr res, m')"
  shows "\<exists>n g2. GetNode g (TransitionRequest.ID req) = Some n
           \<and> api_NodeData.Status (Node.Data n) = ''running''
           \<and> fold propagate (OutEdges g (TransitionRequest.ID req))
                (AddNode g (TransitionRequest.ID req)
                   ((Node.Data n)\<lparr>api_NodeData.Status := ''done''\<rparr>), [])
               = (g2, NewlyReady res)
           \<and> m' = m\<lparr>graphs := AList.update (Graph req) g2 (graphs m)\<rparr>"
  using assms
  by (auto simp: Transition_def getGraph_def validTransitions_api_def Let_def OutEdges_AddNode
        split: option.splits prod.splits if_splits)

lemma pending_in_status: "pending_in g x \<longleftrightarrow> status_in g x = Some ''pending''"
  by (auto simp: pending_in_def status_in_def split: option.splits)

lemma deps_all_done_status:
  "deps_all_done g x \<longleftrightarrow> (\<forall>ie \<in> set (InEdges g x). status_in g (From ie) = Some ''done'')"
  by (auto simp: deps_all_done_def status_in_def list_all_iff split: option.splits)

lemma Transition_done_propagation_general:
  assumes g: "map_of (graphs m) (Graph req) = Some g"
    and d: "TransitionRequest.Status req = ''done''"
    and t: "Transition m req = (Inr res, m')"
  shows "\<exists>g'. map_of (graphs m') (Graph req) = Some g'
        \<and> (\<forall>d. newly_ready_node g g' (TransitionRequest.ID req) d \<longrightarrow>
               status_in g' d = Some ''ready'' \<and> d \<in> set (NewlyReady res))
        \<and> (\<forall>d \<in> set (NewlyReady res). newly_ready_node g g' (TransitionRequest.ID req) d)
        \<and> (\<forall>x. x \<noteq> TransitionRequest.ID req \<and> \<not> newly_ready_node g g' (TransitionRequest.ID req) x \<longrightarrow>
               GetNode g' x = GetNode g x)
        \<and> status_in g' (TransitionRequest.ID req) = Some ''done''"
proof -
  let ?n = "TransitionRequest.ID req"
  from Transition_done_unfold [OF g d t] obtain n g2 where
    n: "GetNode g ?n = Some n" and run: "api_NodeData.Status (Node.Data n) = ''running''"
    and f: "fold propagate (OutEdges g ?n)
              (AddNode g ?n ((Node.Data n)\<lparr>api_NodeData.Status := ''done''\<rparr>), []) = (g2, NewlyReady res)"
    and m': "m' = m\<lparr>graphs := AList.update (Graph req) g2 (graphs m)\<rparr>"
    by blast
  let ?g1 = "AddNode g ?n ((Node.Data n)\<lparr>api_NodeData.Status := ''done''\<rparr>)"
  note F = fold_propagate [OF f]
  have get2: "\<And>x. GetNode g2 x =
      (if x \<in> To ` set (OutEdges g ?n) \<and> promotable ?g1 x then made_ready ?g1 x else GetNode ?g1 x)"
    using F by blast
  have nw: "set (NewlyReady res) = {x \<in> To ` set (OutEdges g ?n). promotable ?g1 x}"
    using F by simp
  have in2: "\<And>x. InEdges g2 x = InEdges g x"
    using F by (simp add: InEdges_AddNode)
  have st1: "\<And>x. status_in ?g1 x = (if x = ?n then Some ''done'' else status_in g x)"
    by (simp add: status_in_def GetNode_AddNode)
  have st2: "\<And>x. status_in g2 x =
      (if x \<in> To ` set (OutEdges g ?n) \<and> promotable ?g1 x then Some ''ready'' else status_in ?g1 x)"
    by (auto simp: status_in_def get2 made_ready_def promotable_def pending_in_def split: option.splits)
  have done2: "\<And>x. status_in g2 x = Some ''done'' \<longleftrightarrow> status_in ?g1 x = Some ''done''"
    by (auto simp: st2 promotable_def pending_in_status)
  have sn: "status_in g ?n = Some ''running''"
    using n run by (simp add: status_in_def)
  have pend1: "\<And>x. pending_in ?g1 x \<longleftrightarrow> status_in g x = Some ''pending''"
    using sn by (auto simp: pending_in_status st1)
  have deps: "\<And>x. deps_all_done ?g1 x \<longleftrightarrow>
      (\<forall>ie \<in> set (InEdges g2 x). status_in g2 (From ie) = Some ''done'')"
    by (simp add: deps_all_done_status in2 done2 InEdges_AddNode)
  have nr: "\<And>x. newly_ready_node g g2 ?n x \<longleftrightarrow> x \<in> To ` set (OutEdges g ?n) \<and> promotable ?g1 x"
    by (auto simp: newly_ready_node_def promotable_def pend1 deps)
  have notn: "\<not> promotable ?g1 ?n"
    using sn by (simp add: promotable_def pend1)
  have "map_of (graphs m') (Graph req) = Some g2"
    by (simp add: m' update_conv')
  moreover have "\<forall>d. newly_ready_node g g2 ?n d \<longrightarrow>
               status_in g2 d = Some ''ready'' \<and> d \<in> set (NewlyReady res)"
    by (simp add: nr st2 nw)
  moreover have "\<forall>d \<in> set (NewlyReady res). newly_ready_node g g2 ?n d"
    by (simp add: nr nw)
  moreover have "\<forall>x. x \<noteq> ?n \<and> \<not> newly_ready_node g g2 ?n x \<longrightarrow> GetNode g2 x = GetNode g x"
    by (auto simp: nr get2 GetNode_AddNode)
  moreover have "status_in g2 ?n = Some ''done''"
    using notn by (simp add: st2 st1)
  ultimately show ?thesis
    by blast
qed

definition m_abc :: Manager where
  \<comment> \<open>the graph of \<open>TestTransitionAutoReady\<close>: a and b running, c pending, edges a->c and b->c\<close>
  "m_abc =
     \<lparr>dir = ''graphs'',
      graphs = [(''t'',
        (case AddEdge
               (AddNode (AddNode (AddNode (NewGraph True)
                  ''a'' \<lparr>Label = [], api_NodeData.Status = ''running''\<rparr>)
                  ''b'' \<lparr>Label = [], api_NodeData.Status = ''running''\<rparr>)
                  ''c'' \<lparr>Label = [], api_NodeData.Status = ''pending''\<rparr>)
               ''a'' ''c'' \<lparr>ELabel = []\<rparr> 0 of
           Inl err \<Rightarrow> NewGraph True
         | Inr g \<Rightarrow>
             (case AddEdge g ''b'' ''c'' \<lparr>ELabel = []\<rparr> 0 of
                Inl err \<Rightarrow> NewGraph True
              | Inr g' \<Rightarrow> g')))]\<rparr>"

lemma Transition_abc_scenario:
  "(case Transition m_abc \<lparr>Graph = ''t'', TransitionRequest.ID = ''a'', TransitionRequest.Status = ''done''\<rparr> of
      (Inl err, m1) \<Rightarrow> False
    | (Inr res1, m1) \<Rightarrow>
        NewlyReady res1 = [] \<and>
        (case Transition m1 \<lparr>Graph = ''t'', TransitionRequest.ID = ''b'', TransitionRequest.Status = ''done''\<rparr> of
           (Inl err, m2) \<Rightarrow> False
         | (Inr res2, m2) \<Rightarrow> NewlyReady res2 = [''c'']))"
  by code_simp

definition a_done :: TransitionRequest where
  "a_done = \<lparr>Graph = ''t'', TransitionRequest.ID = ''a'', TransitionRequest.Status = ''done''\<rparr>"

definition b_done :: TransitionRequest where
  "b_done = \<lparr>Graph = ''t'', TransitionRequest.ID = ''b'', TransitionRequest.Status = ''done''\<rparr>"

text \<open>
  C2. After a successful \<open>Transition\<close> of a node n of an open graph into \<open>done\<close>: every
  node d with an out-edge n->d whose status before was \<open>pending\<close> and all of whose
  incoming dependencies are now \<open>done\<close> has status \<open>ready\<close> and is in \<open>newly_ready\<close>;
  \<open>newly_ready\<close> holds no other node; n is \<open>done\<close>; and every other node is as before.
  For the tasks a, b, c with c depending on a and b, and a and b running: a -> done
  gives \<open>newly_ready = []\<close>, and then b -> done gives \<open>newly_ready = [c]\<close>.
\<close>

theorem Transition_done_propagation:
  "(map_of (graphs m) (Graph req) = Some g \<and> TransitionRequest.Status req = ''done''
      \<and> Transition m req = (Inr res, m') \<longrightarrow>
      (\<exists>g'. map_of (graphs m') (Graph req) = Some g'
        \<and> (\<forall>d. newly_ready_node g g' (TransitionRequest.ID req) d \<longrightarrow>
               status_in g' d = Some ''ready'' \<and> d \<in> set (NewlyReady res))
        \<and> (\<forall>d \<in> set (NewlyReady res). newly_ready_node g g' (TransitionRequest.ID req) d)
        \<and> (\<forall>x. x \<noteq> TransitionRequest.ID req \<and> \<not> newly_ready_node g g' (TransitionRequest.ID req) x \<longrightarrow>
               GetNode g' x = GetNode g x)
        \<and> status_in g' (TransitionRequest.ID req) = Some ''done''))
   \<and> (\<exists>res1 m1 res2 m2.
        Transition m_abc a_done = (Inr res1, m1) \<and> NewlyReady res1 = []
        \<and> Transition m1 b_done = (Inr res2, m2) \<and> NewlyReady res2 = [''c''])"
proof (rule conjI)
  show "map_of (graphs m) (Graph req) = Some g \<and> TransitionRequest.Status req = ''done''
      \<and> Transition m req = (Inr res, m') \<longrightarrow>
      (\<exists>g'. map_of (graphs m') (Graph req) = Some g'
        \<and> (\<forall>d. newly_ready_node g g' (TransitionRequest.ID req) d \<longrightarrow>
               status_in g' d = Some ''ready'' \<and> d \<in> set (NewlyReady res))
        \<and> (\<forall>d \<in> set (NewlyReady res). newly_ready_node g g' (TransitionRequest.ID req) d)
        \<and> (\<forall>x. x \<noteq> TransitionRequest.ID req \<and> \<not> newly_ready_node g g' (TransitionRequest.ID req) x \<longrightarrow>
               GetNode g' x = GetNode g x)
        \<and> status_in g' (TransitionRequest.ID req) = Some ''done'')"
    by (rule impI, elim conjE, rule Transition_done_propagation_general)
next
  obtain r1 m1 where t1: "Transition m_abc a_done = (r1, m1)"
    by (cases "Transition m_abc a_done")
  obtain r2 m2 where t2: "Transition m1 b_done = (r2, m2)"
    by (cases "Transition m1 b_done")
  from Transition_abc_scenario t1 t2
  show "\<exists>res1 m1 res2 m2.
        Transition m_abc a_done = (Inr res1, m1) \<and> NewlyReady res1 = []
        \<and> Transition m1 b_done = (Inr res2, m2) \<and> NewlyReady res2 = [''c'']"
    by (cases r1; cases r2) (simp_all add: a_done_def b_done_def)
qed

definition m_abc1 :: Manager where
  \<comment> \<open>the manager after a has become done\<close>
  "m_abc1 = snd (Transition m_abc a_done)"

lemma m_abc1_graph: "map_of (graphs m_abc1) (Graph b_done) \<noteq> None"
  by code_simp

lemma m_abc1_b_done: "\<not> isl (fst (Transition m_abc1 b_done))"
  by code_simp

theorem Transition_done_propagation_witness:
  "map_of (graphs m_abc1) (Graph b_done) \<noteq> None
   \<and> TransitionRequest.Status b_done = ''done''
   \<and> \<not> isl (fst (Transition m_abc1 b_done))
   \<and> (\<exists>g'. map_of (graphs (snd (Transition m_abc1 b_done))) (Graph b_done) = Some g'
         \<and> status_in g' ''b'' = Some ''done'')"
proof -
  obtain g where g: "map_of (graphs m_abc1) (Graph b_done) = Some g"
    using m_abc1_graph by blast
  have d: "TransitionRequest.Status b_done = ''done''"
    by (simp add: b_done_def)
  obtain res where t: "Transition m_abc1 b_done = (Inr res, snd (Transition m_abc1 b_done))"
    using m_abc1_b_done by (cases "Transition m_abc1 b_done"; cases "fst (Transition m_abc1 b_done)") auto
  have i: "TransitionRequest.ID b_done = ''b''"
    by (simp add: b_done_def)
  from Transition_done_propagation [of m_abc1 b_done g res "snd (Transition m_abc1 b_done)"] g d t
  have "\<exists>g'. map_of (graphs (snd (Transition m_abc1 b_done))) (Graph b_done) = Some g'
         \<and> status_in g' ''b'' = Some ''done''"
    unfolding i by blast
  with m_abc1_graph d m_abc1_b_done show ?thesis
    by blast
qed

section \<open>Shortest path (algorithms)\<close>

text \<open>
  The heap operations are those of Go's standard package \<open>container/heap\<close>
  (\<open>Push\<close> appends and sifts up, \<open>Pop\<close> swaps the root with the last element, sifts
  down and removes the last element), over the \<open>Len\<close>, \<open>Less\<close>, \<open>Swap\<close>, \<open>Push\<close> and
  \<open>Pop\<close> methods of \<open>dijkstraHeap\<close>. In \<open>up\<close> the parent index is \<open>(j - 1) / 2\<close>, which Go
  rounds towards zero, so it is 0 for \<open>j = 0\<close>, as the truncating subtraction on
  \<^typ>\<open>nat\<close> gives. The fields \<open>id\<close> and \<open>dist\<close> of \<open>dijkstraItem\<close> are \<open>id_item\<close> and
  \<open>dist_item\<close>.
\<close>

record dijkstraItem =
  id_item :: string
  dist_item :: real

definition Less_heap :: "dijkstraItem list \<Rightarrow> nat \<Rightarrow> nat \<Rightarrow> bool" where
  "Less_heap h i j = (dist_item (h ! i) < dist_item (h ! j))"

definition Swap_heap :: "dijkstraItem list \<Rightarrow> nat \<Rightarrow> nat \<Rightarrow> dijkstraItem list" where
  "Swap_heap h i j = h[i := h ! j, j := h ! i]"

function up :: "dijkstraItem list \<Rightarrow> nat \<Rightarrow> dijkstraItem list" where
  "up h j =
     (let i = (j - 1) div 2 in
      if i = j \<or> \<not> Less_heap h j i then h else up (Swap_heap h i j) i)"
  by pat_completeness auto
termination
  by (relation "measure snd") auto

function down :: "dijkstraItem list \<Rightarrow> nat \<Rightarrow> nat \<Rightarrow> dijkstraItem list" where
  "down h i n =
     (let j1 = 2 * i + 1 in
      if j1 \<ge> n then h
      else
        let j = (if j1 + 1 < n \<and> Less_heap h (j1 + 1) j1 then j1 + 1 else j1) in
        if \<not> Less_heap h j i then h else down (Swap_heap h i j) j n)"
  by pat_completeness auto
termination
  by (relation "measure (\<lambda>(h, i, n). n - i)") (auto simp: Let_def)

definition heap_Push :: "dijkstraItem list \<Rightarrow> dijkstraItem \<Rightarrow> dijkstraItem list" where
  "heap_Push h x = up (h @ [x]) (length h)"

definition heap_Pop :: "dijkstraItem list \<Rightarrow> dijkstraItem \<times> dijkstraItem list" where
  "heap_Pop h =
     (let n = length h - 1;
          h1 = down (Swap_heap h 0 n) 0 n
      in (last h1, butlast h1))"

type_synonym dstate = "(string \<times> real) list \<times> (string \<times> string) list \<times> dijkstraItem list"

definition relax :: "dijkstraItem \<Rightarrow> 'e Edge \<Rightarrow> dstate \<Rightarrow> dstate" where
  "relax cur e = (\<lambda>(dists, prev, h).
     let nd = dist_item cur + Weight e in
     if (case map_of dists (To e) of None \<Rightarrow> True | Some d \<Rightarrow> nd < d)
     then (AList.update (To e) nd dists,
           AList.update (To e) (id_item cur) prev,
           heap_Push h \<lparr>id_item = To e, dist_item = nd\<rparr>)
     else (dists, prev, h))"

text \<open>
  The main loop of \<open>ShortestPath\<close> and the loop that rebuilds the path need not end on
  every input (a cycle of negative weight, a cycle of predecessors), so both are partial:
  \<open>None\<close> stands for a run that never returns. Reading \<open>dist[cur.id]\<close> or \<open>prev[cur]\<close> at
  a missing key gives Go's zero value, \<open>0\<close> or the empty string.
\<close>

partial_function (option) dijkstra_loop ::
  "('n, 'e) Graph \<Rightarrow> string \<Rightarrow> dstate \<Rightarrow> ((string \<times> real) list \<times> (string \<times> string) list) option" where
  "dijkstra_loop g dst s =
     (case s of (dists, prev, h) \<Rightarrow>
        if h = [] then Some (dists, prev)
        else
          (case heap_Pop h of (cur, h') \<Rightarrow>
             if dist_item cur > (case map_of dists (id_item cur) of None \<Rightarrow> 0 | Some d \<Rightarrow> d)
             then dijkstra_loop g dst (dists, prev, h')
             else if id_item cur = dst then Some (dists, prev)
             else dijkstra_loop g dst (fold (relax cur) (OutEdges g (id_item cur)) (dists, prev, h'))))"

partial_function (option) build_path ::
  "(string \<times> string) list \<Rightarrow> string \<Rightarrow> string \<Rightarrow> string list \<Rightarrow> string list option" where
  "build_path prev src cur path =
     (if cur = [] then Some path
      else if cur = src then Some (path @ [cur])
      else build_path prev src (case map_of prev cur of None \<Rightarrow> [] | Some p \<Rightarrow> p) (path @ [cur]))"

definition ShortestPath ::
  "('n, 'e) Graph \<Rightarrow> string \<Rightarrow> string \<Rightarrow> (error + string list \<times> real) option" where
  "ShortestPath g src dst =
     (if \<not> HasNode g src then Some (Inl SourceNotFound)
      else if \<not> HasNode g dst then Some (Inl DestinationNotFound)
      else
        (case dijkstra_loop g dst ([(src, 0)], [], [\<lparr>id_item = src, dist_item = 0\<rparr>]) of
           None \<Rightarrow> None
         | Some (dists, prev) \<Rightarrow>
             (case map_of dists dst of
                None \<Rightarrow> Some (Inl NoPath)
              | Some d \<Rightarrow>
                  (case build_path prev src dst [] of
                     None \<Rightarrow> None
                   | Some path \<Rightarrow> Some (Inr (rev path, d))))))"

text \<open>A call \<open>g.AddEdge(...)\<close> whose error result is dropped, as the tests write it: when
  \<open>AddEdge\<close> returns the error the graph is as before.\<close>

definition AddEdge_dropped ::
  "('n, 'e) Graph \<Rightarrow> string \<Rightarrow> string \<Rightarrow> 'e \<Rightarrow> real \<Rightarrow> ('n, 'e) Graph" where
  "AddEdge_dropped g from to data weight =
     (case AddEdge g from to data weight of Inl err \<Rightarrow> g | Inr g' \<Rightarrow> g')"

definition g_path :: "(string, string) Graph" where
  \<comment> \<open>the graph of \<open>TestShortestPath\<close>\<close>
  "g_path =
     AddEdge_dropped (AddEdge_dropped (AddEdge_dropped (AddEdge_dropped
       (fold (\<lambda>i g. AddNode g i i) [''a'', ''b'', ''c'', ''d''] (NewGraph True))
       ''a'' ''b'' [] 1) ''b'' ''d'' [] 2) ''a'' ''c'' [] 1) ''c'' ''d'' [] 1"

declare dijkstra_loop.simps [code]

declare build_path.simps [code]

lemma g_path_out: "inner (out g_path) ''a'' =
  [(''b'', \<lparr>Edge.From = ''a'', To = ''b'', Edge.Data = [], Weight = 1\<rparr>),
   (''c'', \<lparr>Edge.From = ''a'', To = ''c'', Edge.Data = [], Weight = 1\<rparr>)]"
  by code_simp

lemma two_perm: "mset es = mset [x, y] \<Longrightarrow> es = [x, y] \<or> es = [y, x]"
  by (cases es; cases "tl es"; cases "tl (tl es)") (auto simp: add_eq_conv_ex split: if_splits)

lemma ShortestPath_g_path: "ShortestPath g_path ''a'' ''d'' = Some (Inr ([''a'', ''c'', ''d''], 2))"
  by code_simp

lemma ShortestPath_order_bc: "ShortestPath (g_path\<lparr>out := AList.update ''a''
  [(''b'', \<lparr>Edge.From = ''a'', To = ''b'', Edge.Data = [], Weight = 1\<rparr>),
   (''c'', \<lparr>Edge.From = ''a'', To = ''c'', Edge.Data = [], Weight = 1\<rparr>)] (out g_path)\<rparr>) ''a'' ''d''
   = Some (Inr ([''a'', ''c'', ''d''], 2))"
  by code_simp

lemma ShortestPath_order_cb: "ShortestPath (g_path\<lparr>out := AList.update ''a''
  [(''c'', \<lparr>Edge.From = ''a'', To = ''c'', Edge.Data = [], Weight = 1\<rparr>),
   (''b'', \<lparr>Edge.From = ''a'', To = ''b'', Edge.Data = [], Weight = 1\<rparr>)] (out g_path)\<rparr>) ''a'' ''d''
   = Some (Inr ([''a'', ''c'', ''d''], 2))"
  by code_simp

text \<open>
  C5. For the directed graph with the nodes a, b, c, d and the edges a->b (1), b->d (2),
  a->c (1), c->d (1), \<open>ShortestPath(g, a, d)\<close> returns the path [a, c, d] with cost 2 and
  no error. The out-edges of a are the only map with two entries that the search
  iterates; the result is the same for both iteration orders.
\<close>

theorem ShortestPath_ties:
  "ShortestPath g_path ''a'' ''d'' = Some (Inr ([''a'', ''c'', ''d''], 2))
   \<and> (mset es = mset (inner (out g_path) ''a'') \<longrightarrow>
        ShortestPath (g_path\<lparr>out := AList.update ''a'' es (out g_path)\<rparr>) ''a'' ''d''
          = Some (Inr ([''a'', ''c'', ''d''], 2)))"
proof (intro conjI impI)
  show "ShortestPath g_path ''a'' ''d'' = Some (Inr ([''a'', ''c'', ''d''], 2))"
    by (rule ShortestPath_g_path)
next
  assume "mset es = mset (inner (out g_path) ''a'')"
  then have "es = [(''b'', \<lparr>Edge.From = ''a'', To = ''b'', Edge.Data = [], Weight = 1\<rparr>),
                   (''c'', \<lparr>Edge.From = ''a'', To = ''c'', Edge.Data = [], Weight = 1\<rparr>)]
           \<or> es = [(''c'', \<lparr>Edge.From = ''a'', To = ''c'', Edge.Data = [], Weight = 1\<rparr>),
                   (''b'', \<lparr>Edge.From = ''a'', To = ''b'', Edge.Data = [], Weight = 1\<rparr>)]"
    unfolding g_path_out by (rule two_perm)
  then show "ShortestPath (g_path\<lparr>out := AList.update ''a'' es (out g_path)\<rparr>) ''a'' ''d''
          = Some (Inr ([''a'', ''c'', ''d''], 2))"
    using ShortestPath_order_bc ShortestPath_order_cb by blast
qed

theorem ShortestPath_ties_witness:
  "mset [(''c'', \<lparr>Edge.From = ''a'', To = ''c'', Edge.Data = [], Weight = 1\<rparr>),
         (''b'', \<lparr>Edge.From = ''a'', To = ''b'', Edge.Data = [], Weight = 1\<rparr>)]
     = mset (inner (out g_path) ''a'')
   \<and> ShortestPath (g_path\<lparr>out := AList.update ''a''
         [(''c'', \<lparr>Edge.From = ''a'', To = ''c'', Edge.Data = [], Weight = 1\<rparr>),
          (''b'', \<lparr>Edge.From = ''a'', To = ''b'', Edge.Data = [], Weight = 1\<rparr>)] (out g_path)\<rparr>) ''a'' ''d''
       = Some (Inr ([''a'', ''c'', ''d''], 2))"
proof -
  have h: "mset [(''c'', \<lparr>Edge.From = ''a'', To = ''c'', Edge.Data = [], Weight = 1\<rparr>),
         (''b'', \<lparr>Edge.From = ''a'', To = ''b'', Edge.Data = ([]::string), Weight = 1\<rparr>)]
     = mset (inner (out g_path) ''a'')"
    unfolding g_path_out by simp
  from ShortestPath_ties [of "[(''c'', \<lparr>Edge.From = ''a'', To = ''c'', Edge.Data = [], Weight = 1\<rparr>),
         (''b'', \<lparr>Edge.From = ''a'', To = ''b'', Edge.Data = [], Weight = 1\<rparr>)]"] h
  show ?thesis by blast
qed

section \<open>Edges, Subgraph and the snapshot codec (graph.go, algorithms, serialize.go)\<close>

definition Edges :: "('n, 'e) Graph \<Rightarrow> 'e Edge list" where
  "Edges g =
     snd (fold
       (\<lambda>(from, m). fold
          (\<lambda>(to, e) (seen, result).
             if \<not> Directed g \<and> (to, from) \<in> set seen then (seen, result)
             else if (from, to) \<notin> set seen then (seen @ [(from, to)], result @ [e])
             else (seen, result))
          m)
       (out g) ([], []))"

definition Size :: "('n, 'e) Graph \<Rightarrow> nat" where
  "Size g = length (Edges g)"

definition put_store ::
  "(string \<times> (string \<times> Store) list) list \<Rightarrow> string \<Rightarrow> string \<Rightarrow> Store
     \<Rightarrow> (string \<times> (string \<times> Store) list) list" where
  \<comment> \<open>\<open>if m[from] == nil { m[from] = make(...) }; m[from][to] = st\<close>\<close>
  "put_store m from to st = AList.update from (AList.update to st (inner m from)) m"

definition Subgraph :: "('n, 'e) Graph \<Rightarrow> string list \<Rightarrow> ('n, 'e) Graph" where
  "Subgraph g ids =
     (let sub0 = NewGraph (Directed g);
          sub1 = fold (\<lambda>i sub. case GetNode g i of
                                   Some n \<Rightarrow> AddNode sub (Node.ID n) (Node.Data n)
                                 | None \<Rightarrow> sub) ids sub0;
          sub2 = fold (\<lambda>i. fold (\<lambda>e sub.
                        if To e \<in> set ids \<and> \<not> HasEdge sub (From e) (To e)
                        then AddEdge_dropped sub (From e) (To e) (Edge.Data e) (Weight e)
                        else sub) (OutEdges g i)) ids sub1;
          sub3 = fold (\<lambda>i sub. case map_of (nodeMeta g) i of
                                   Some st \<Rightarrow> sub\<lparr>nodeMeta := AList.update i (Copy_store st) (nodeMeta sub)\<rparr>
                                 | None \<Rightarrow> sub) ids sub2
      in fold (\<lambda>(from, m). fold (\<lambda>(to, st) sub.
                 if from \<in> set ids \<and> to \<in> set ids \<and> HasEdge sub from to
                 then sub\<lparr>edgeMeta := put_store (edgeMeta sub) from to (Copy_store st)\<rparr>
                 else sub) m) (edgeMeta g) sub3)"

text \<open>
  \<open>Marshal\<close> fills a \<open>Snapshot\<close> and hands it to \<open>json.Marshal\<close> (or \<open>MarshalIndent\<close>) of
  Go's standard library; \<open>Unmarshal\<close> starts with \<open>json.Unmarshal\<close>. The JSON document
  is modelled as a tree, \<open>json\<close>; its text is the rendering of the tree, compact or
  indented. The encoder writes struct fields in the order of their declaration, leaves
  out an \<open>omitempty\<close> field that is nil (or an empty map) and writes the keys of a map in
  sorted order. How a node payload, an edge payload and a metadata value are encoded
  depends on their types; these encoders are the parameters \<open>encN\<close>, \<open>encE\<close> and \<open>encA\<close>
  (\<open>None\<close>: the value cannot be encoded and \<open>json.Marshal\<close> returns an error), and the
  payload decoders are \<open>decN\<close> and \<open>decE\<close>. The fields of the snapshot structs carry a
  suffix (\<open>ID_nd\<close> is \<open>NodeData.ID\<close>, \<open>Entries_nm\<close> is \<open>NodeMetaData.Entries\<close>, and so on).
\<close>

datatype json = JNull | JBool bool | JNum real | JStr string | JArr "json list" | JObj "(string \<times> json) list"

datatype jsontext = Compact json | Indented json

record 'n NodeData =
  ID_nd :: string
  Data_nd :: 'n

record 'e EdgeData =
  From_ed :: string
  To_ed :: string
  Data_ed :: 'e
  Weight_ed :: real

record ('n, 'e) GraphData =
  Nodes_gd :: "'n NodeData list"
  Edges_gd :: "'e EdgeData list"

record NodeMetaData =
  ID_nm :: string
  Entries_nm :: "(string \<times> goval) list"
  Schema_nm :: "Schema option"

record EdgeMetaData =
  From_em :: string
  To_em :: string
  Entries_em :: "(string \<times> goval) list"
  Schema_em :: "Schema option"

record MetaData =
  Nodes_md :: "NodeMetaData list"
  Edges_md :: "EdgeMetaData list"

record ('n, 'e) Snapshot =
  Version :: int
  Directed_snap :: bool
  Graph_snap :: "('n, 'e) GraphData option"
  Meta_snap :: "MetaData option"

record MarshalOptions =
  NodeIDs :: "string list option"
  Graph_opt :: bool
  Meta_opt :: bool
  Schemas :: bool
  Indent :: bool

definition normalize_edge :: "'e Edge \<Rightarrow> 'e Edge" where
  "normalize_edge e = (if From e > To e then e\<lparr>From := To e, To := From e\<rparr> else e)"

definition graph_section :: "('n, 'e) Graph \<Rightarrow> ('n, 'e) GraphData" where
  "graph_section target =
     (let edges = Edges target;
          edges1 = (if \<not> Directed target then map normalize_edge edges else edges);
          edges2 = sort_key (\<lambda>e. (From e, To e)) edges1
      in \<lparr>Nodes_gd = map (\<lambda>n. \<lparr>ID_nd = Node.ID n, Data_nd = Node.Data n\<rparr>) (Nodes target),
          Edges_gd = map (\<lambda>e. \<lparr>From_ed = From e, To_ed = To e, Data_ed = Edge.Data e,
                                 Weight_ed = Weight e\<rparr>) edges2\<rparr>)"

definition node_meta_section :: "bool \<Rightarrow> ('n, 'e) Graph \<Rightarrow> NodeMetaData list" where
  "node_meta_section schemas target =
     concat (map
       (\<lambda>n. case map_of (nodeMeta target) (Node.ID n) of
               None \<Rightarrow> []
             | Some store \<Rightarrow>
                 if Len store = 0 then []
                 else [\<lparr>ID_nm = Node.ID n,
                        Entries_nm = fold (\<lambda>(k, v). AList.update k v) (entries store) [],
                        Schema_nm = (if schemas then GetSchema store else None)\<rparr>])
       (Nodes target))"

definition edge_meta_keys :: "('n, 'e) Graph \<Rightarrow> (string \<times> string) list" where
  "edge_meta_keys target =
     concat (map (\<lambda>(from, m). concat (map (\<lambda>(to, store). if Len store > 0 then [(from, to)] else []) m))
       (edgeMeta target))"

definition edge_meta_section :: "bool \<Rightarrow> ('n, 'e) Graph \<Rightarrow> EdgeMetaData list" where
  "edge_meta_section schemas target =
     map (\<lambda>(from, to).
            let store = (case map_of (inner (edgeMeta target) from) to of
                           None \<Rightarrow> NewStore | Some st \<Rightarrow> st)
            in \<lparr>From_em = from, To_em = to,
                Entries_em = fold (\<lambda>(k, v). AList.update k v) (entries store) [],
                Schema_em = (if schemas then GetSchema store else None)\<rparr>)
       (sort (edge_meta_keys target))"

definition default_options :: MarshalOptions where
  "default_options = \<lparr>NodeIDs = None, Graph_opt = True, Meta_opt = True, Schemas = True, Indent = True\<rparr>"

definition snapshot_of :: "('n, 'e) Graph \<Rightarrow> MarshalOptions \<Rightarrow> ('n, 'e) Snapshot" where
  "snapshot_of g opts =
     (let target = (case NodeIDs opts of None \<Rightarrow> g | Some ids \<Rightarrow> Subgraph g ids)
      in \<lparr>Version = 1,
          Directed_snap = Directed target,
          Graph_snap = (if Graph_opt opts then Some (graph_section target) else None),
          Meta_snap = (if Meta_opt opts
                       then Some \<lparr>Nodes_md = node_meta_section (Schemas opts) target,
                                  Edges_md = edge_meta_section (Schemas opts) target\<rparr>
                       else None)\<rparr>)"

definition json_map :: "('v \<Rightarrow> json option) \<Rightarrow> (string \<times> 'v) list \<Rightarrow> json option" where
  "json_map enc m =
     map_option JObj (those (map (\<lambda>(k, v). map_option (Pair k) (enc v)) (sort_key fst m)))"

definition json_FieldDef :: "FieldDef \<Rightarrow> json option" where
  "json_FieldDef d = Some (JObj [(''type'', JStr (Type d)), (''required'', JBool (Required d))])"

definition json_schema :: "Schema option \<Rightarrow> (string \<times> json) list option" where
  "json_schema sch =
     (case sch of
        None \<Rightarrow> Some []
      | Some m \<Rightarrow> if m = [] then Some []
                  else map_option (\<lambda>j. [(''schema'', j)]) (json_map json_FieldDef m))"

definition json_NodeData :: "('n \<Rightarrow> json option) \<Rightarrow> 'n NodeData \<Rightarrow> json option" where
  "json_NodeData encN n =
     map_option (\<lambda>d. JObj [(''id'', JStr (ID_nd n)), (''data'', d)]) (encN (Data_nd n))"

definition json_EdgeData :: "('e \<Rightarrow> json option) \<Rightarrow> 'e EdgeData \<Rightarrow> json option" where
  "json_EdgeData encE e =
     map_option (\<lambda>d. JObj [(''from'', JStr (From_ed e)), (''to'', JStr (To_ed e)), (''data'', d),
                            (''weight'', JNum (Weight_ed e))]) (encE (Data_ed e))"

definition json_GraphData ::
  "('n \<Rightarrow> json option) \<Rightarrow> ('e \<Rightarrow> json option) \<Rightarrow> ('n, 'e) GraphData \<Rightarrow> json option" where
  "json_GraphData encN encE gd =
     (case those (map (json_NodeData encN) (Nodes_gd gd)) of
        None \<Rightarrow> None
      | Some ns \<Rightarrow>
          (case those (map (json_EdgeData encE) (Edges_gd gd)) of
             None \<Rightarrow> None
           | Some es \<Rightarrow> Some (JObj [(''nodes'', JArr ns), (''edges'', JArr es)])))"

definition json_NodeMetaData :: "(goval \<Rightarrow> json option) \<Rightarrow> NodeMetaData \<Rightarrow> json option" where
  "json_NodeMetaData encA nm =
     (case json_map encA (Entries_nm nm) of
        None \<Rightarrow> None
      | Some en \<Rightarrow>
          (case json_schema (Schema_nm nm) of
             None \<Rightarrow> None
           | Some sc \<Rightarrow> Some (JObj ([(''id'', JStr (ID_nm nm)), (''entries'', en)] @ sc))))"

definition json_EdgeMetaData :: "(goval \<Rightarrow> json option) \<Rightarrow> EdgeMetaData \<Rightarrow> json option" where
  "json_EdgeMetaData encA em =
     (case json_map encA (Entries_em em) of
        None \<Rightarrow> None
      | Some en \<Rightarrow>
          (case json_schema (Schema_em em) of
             None \<Rightarrow> None
           | Some sc \<Rightarrow>
               Some (JObj ([(''from'', JStr (From_em em)), (''to'', JStr (To_em em)),
                            (''entries'', en)] @ sc))))"

definition json_MetaData :: "(goval \<Rightarrow> json option) \<Rightarrow> MetaData \<Rightarrow> json option" where
  "json_MetaData encA md =
     (case those (map (json_NodeMetaData encA) (Nodes_md md)) of
        None \<Rightarrow> None
      | Some ns \<Rightarrow>
          (case those (map (json_EdgeMetaData encA) (Edges_md md)) of
             None \<Rightarrow> None
           | Some es \<Rightarrow> Some (JObj [(''nodes'', JArr ns), (''edges'', JArr es)])))"

definition json_optional :: "string \<Rightarrow> ('a \<Rightarrow> json option) \<Rightarrow> 'a option \<Rightarrow> (string \<times> json) list option" where
  "json_optional name enc x =
     (case x of None \<Rightarrow> Some [] | Some v \<Rightarrow> map_option (\<lambda>j. [(name, j)]) (enc v))"

definition json_Marshal ::
  "('n \<Rightarrow> json option) \<Rightarrow> ('e \<Rightarrow> json option) \<Rightarrow> (goval \<Rightarrow> json option)
     \<Rightarrow> ('n, 'e) Snapshot \<Rightarrow> json option" where
  "json_Marshal encN encE encA snap =
     (case json_optional ''graph'' (json_GraphData encN encE) (Graph_snap snap) of
        None \<Rightarrow> None
      | Some gs \<Rightarrow>
          (case json_optional ''metadata'' (json_MetaData encA) (Meta_snap snap) of
             None \<Rightarrow> None
           | Some ms \<Rightarrow>
               Some (JObj ([(''version'', JNum (real_of_int (Version snap))),
                            (''directed'', JBool (Directed_snap snap))] @ gs @ ms))))"

definition Marshal ::
  "('n \<Rightarrow> json option) \<Rightarrow> ('e \<Rightarrow> json option) \<Rightarrow> (goval \<Rightarrow> json option)
     \<Rightarrow> ('n, 'e) Graph \<Rightarrow> MarshalOptions option \<Rightarrow> error + jsontext" where
  "Marshal encN encE encA g opts =
     (let opts1 = (case opts of None \<Rightarrow> default_options | Some opt \<Rightarrow> opt)
      in case json_Marshal encN encE encA (snapshot_of g opts1) of
           None \<Rightarrow> Inl MarshalFailed
         | Some j \<Rightarrow> Inr (if Indent opts1 then Indented j else Compact j))"


text \<open>
  Decoding a JSON value into \<open>any\<close> gives \<open>nil\<close>, \<open>bool\<close>, \<open>float64\<close>, \<open>string\<close>,
  \<open>[]any\<close> or \<open>map[string]any\<close>. In a struct, a key that is missing or \<open>null\<close> leaves the
  field at its zero value; a value of the wrong shape is an error (\<open>None\<close>).
\<close>

primrec decode_any :: "json \<Rightarrow> goval" where
  "decode_any JNull = VNil"
| "decode_any (JBool b) = VBool b"
| "decode_any (JNum r) = VFloat KFloat64 r"
| "decode_any (JStr s) = VString s"
| "decode_any (JArr xs) = VSlice SliceAny (map decode_any xs)"
| "decode_any (JObj fs) = VMap MapAny (map (map_prod id decode_any) fs)"

definition field :: "(string \<times> json) list \<Rightarrow> string \<Rightarrow> json" where
  "field fs name = (case map_of fs name of None \<Rightarrow> JNull | Some j \<Rightarrow> j)"

definition dec_fields :: "json \<Rightarrow> (string \<times> json) list option" where
  "dec_fields j = (case j of JObj fs \<Rightarrow> Some fs | JNull \<Rightarrow> Some [] | _ \<Rightarrow> None)"

definition dec_str :: "json \<Rightarrow> string option" where
  "dec_str j = (case j of JStr s \<Rightarrow> Some s | JNull \<Rightarrow> Some [] | _ \<Rightarrow> None)"

definition dec_bool :: "json \<Rightarrow> bool option" where
  "dec_bool j = (case j of JBool b \<Rightarrow> Some b | JNull \<Rightarrow> Some False | _ \<Rightarrow> None)"

definition dec_int :: "json \<Rightarrow> int option" where
  "dec_int j = (case j of JNum r \<Rightarrow> (if real_of_int \<lfloor>r\<rfloor> = r then Some \<lfloor>r\<rfloor> else None)
                | JNull \<Rightarrow> Some 0 | _ \<Rightarrow> None)"

definition dec_float :: "json \<Rightarrow> real option" where
  "dec_float j = (case j of JNum r \<Rightarrow> Some r | JNull \<Rightarrow> Some 0 | _ \<Rightarrow> None)"

definition dec_list :: "(json \<Rightarrow> 'a option) \<Rightarrow> json \<Rightarrow> 'a list option" where
  "dec_list dec j = (case j of JArr xs \<Rightarrow> those (map dec xs) | JNull \<Rightarrow> Some [] | _ \<Rightarrow> None)"

definition dec_entries :: "json \<Rightarrow> (string \<times> goval) list option" where
  "dec_entries j = (case j of JObj fs \<Rightarrow> Some (map (map_prod id decode_any) fs)
                    | JNull \<Rightarrow> Some [] | _ \<Rightarrow> None)"

definition dec_FieldDef :: "json \<Rightarrow> FieldDef option" where
  "dec_FieldDef j =
     do { fs \<leftarrow> dec_fields j;
          t \<leftarrow> dec_str (field fs ''type'');
          r \<leftarrow> dec_bool (field fs ''required'');
          Some \<lparr>Type = t, Required = r\<rparr> }"

definition dec_schema :: "json \<Rightarrow> Schema option option" where
  "dec_schema j =
     (case j of
        JObj fs \<Rightarrow> map_option Some (those (map (\<lambda>(k, v). map_option (Pair k) (dec_FieldDef v)) fs))
      | JNull \<Rightarrow> Some None
      | _ \<Rightarrow> None)"

definition dec_NodeData :: "(json \<Rightarrow> 'n option) \<Rightarrow> json \<Rightarrow> 'n NodeData option" where
  "dec_NodeData decN j =
     do { fs \<leftarrow> dec_fields j;
          i \<leftarrow> dec_str (field fs ''id'');
          d \<leftarrow> decN (field fs ''data'');
          Some \<lparr>ID_nd = i, Data_nd = d\<rparr> }"

definition dec_EdgeData :: "(json \<Rightarrow> 'e option) \<Rightarrow> json \<Rightarrow> 'e EdgeData option" where
  "dec_EdgeData decE j =
     do { fs \<leftarrow> dec_fields j;
          f \<leftarrow> dec_str (field fs ''from'');
          t \<leftarrow> dec_str (field fs ''to'');
          d \<leftarrow> decE (field fs ''data'');
          w \<leftarrow> dec_float (field fs ''weight'');
          Some \<lparr>From_ed = f, To_ed = t, Data_ed = d, Weight_ed = w\<rparr> }"

definition dec_GraphData ::
  "(json \<Rightarrow> 'n option) \<Rightarrow> (json \<Rightarrow> 'e option) \<Rightarrow> json \<Rightarrow> ('n, 'e) GraphData option option" where
  "dec_GraphData decN decE j =
     (case j of
        JNull \<Rightarrow> Some None
      | JObj fs \<Rightarrow>
          do { ns \<leftarrow> dec_list (dec_NodeData decN) (field fs ''nodes'');
               es \<leftarrow> dec_list (dec_EdgeData decE) (field fs ''edges'');
               Some (Some \<lparr>Nodes_gd = ns, Edges_gd = es\<rparr>) }
      | _ \<Rightarrow> None)"

definition dec_NodeMetaData :: "json \<Rightarrow> NodeMetaData option" where
  "dec_NodeMetaData j =
     do { fs \<leftarrow> dec_fields j;
          i \<leftarrow> dec_str (field fs ''id'');
          en \<leftarrow> dec_entries (field fs ''entries'');
          sc \<leftarrow> dec_schema (field fs ''schema'');
          Some \<lparr>ID_nm = i, Entries_nm = en, Schema_nm = sc\<rparr> }"

definition dec_EdgeMetaData :: "json \<Rightarrow> EdgeMetaData option" where
  "dec_EdgeMetaData j =
     do { fs \<leftarrow> dec_fields j;
          f \<leftarrow> dec_str (field fs ''from'');
          t \<leftarrow> dec_str (field fs ''to'');
          en \<leftarrow> dec_entries (field fs ''entries'');
          sc \<leftarrow> dec_schema (field fs ''schema'');
          Some \<lparr>From_em = f, To_em = t, Entries_em = en, Schema_em = sc\<rparr> }"

definition dec_MetaData :: "json \<Rightarrow> MetaData option option" where
  "dec_MetaData j =
     (case j of
        JNull \<Rightarrow> Some None
      | JObj fs \<Rightarrow>
          do { ns \<leftarrow> dec_list dec_NodeMetaData (field fs ''nodes'');
               es \<leftarrow> dec_list dec_EdgeMetaData (field fs ''edges'');
               Some (Some \<lparr>Nodes_md = ns, Edges_md = es\<rparr>) }
      | _ \<Rightarrow> None)"

definition json_Unmarshal ::
  "(json \<Rightarrow> 'n option) \<Rightarrow> (json \<Rightarrow> 'e option) \<Rightarrow> json \<Rightarrow> ('n, 'e) Snapshot option" where
  "json_Unmarshal decN decE j =
     do { fs \<leftarrow> dec_fields j;
          v \<leftarrow> dec_int (field fs ''version'');
          d \<leftarrow> dec_bool (field fs ''directed'');
          gd \<leftarrow> dec_GraphData decN decE (field fs ''graph'');
          md \<leftarrow> dec_MetaData (field fs ''metadata'');
          Some \<lparr>Version = v, Directed_snap = d, Graph_snap = gd, Meta_snap = md\<rparr> }"

text \<open>
  Modelled from the spec: the accessors \<open>NodeMeta\<close> and \<open>EdgeMeta\<close> of \<open>Graph\<close> are not
  among the sources. The spec says: one store per existing node and one per existing
  edge, created lazily on first access. The metadata tests add: the accessor returns nil
  for a node or edge that does not exist, the same store on every call, the store of a
  node i is \<open>nodeMeta[i]\<close> and of a directed edge is \<open>edgeMeta[from][to]\<close>, and for an
  undirected edge both directions give one store (kept here under the pair ordered so
  that from <= to). The store is returned by pointer; a caller's writes are written back
  into the map by the functions that use the accessor.
\<close>

definition NodeMeta :: "('n, 'e) Graph \<Rightarrow> string \<Rightarrow> Store option \<times> ('n, 'e) Graph" where
  "NodeMeta g i =
     (if \<not> HasNode g i then (None, g)
      else (case map_of (nodeMeta g) i of
              Some st \<Rightarrow> (Some st, g)
            | None \<Rightarrow> (Some NewStore, g\<lparr>nodeMeta := AList.update i NewStore (nodeMeta g)\<rparr>)))"

definition edge_key :: "('n, 'e) Graph \<Rightarrow> string \<Rightarrow> string \<Rightarrow> string \<times> string" where
  "edge_key g from to = (if Directed g \<or> from \<le> to then (from, to) else (to, from))"

definition EdgeMeta :: "('n, 'e) Graph \<Rightarrow> string \<Rightarrow> string \<Rightarrow> Store option \<times> ('n, 'e) Graph" where
  "EdgeMeta g from to =
     (if \<not> HasEdge g from to then (None, g)
      else
        let (f, t) = edge_key g from to in
        (case map_of (inner (edgeMeta g) f) t of
           Some st \<Rightarrow> (Some st, g)
         | None \<Rightarrow> (Some NewStore, g\<lparr>edgeMeta := put_store (edgeMeta g) f t NewStore\<rparr>)))"

definition fill_store :: "(string \<times> goval) list \<Rightarrow> Schema option \<Rightarrow> Store \<Rightarrow> Store" where
  "fill_store en sc st =
     (let st1 = fold (\<lambda>(k, v) s. Set_store s k v) en st
      in case sc of None \<Rightarrow> st1 | Some sch \<Rightarrow> SetSchema st1 (Some sch))"

definition apply_node_meta :: "NodeMetaData \<Rightarrow> ('n, 'e) Graph \<Rightarrow> ('n, 'e) Graph" where
  "apply_node_meta nm g =
     (if \<not> HasNode g (ID_nm nm) then g
      else (case NodeMeta g (ID_nm nm) of
              (None, g1) \<Rightarrow> g1
            | (Some st, g1) \<Rightarrow>
                g1\<lparr>nodeMeta := AList.update (ID_nm nm)
                       (fill_store (Entries_nm nm) (Schema_nm nm) st) (nodeMeta g1)\<rparr>))"

definition apply_edge_meta :: "EdgeMetaData \<Rightarrow> ('n, 'e) Graph \<Rightarrow> ('n, 'e) Graph" where
  "apply_edge_meta em g =
     (if \<not> HasEdge g (From_em em) (To_em em) then g
      else (case EdgeMeta g (From_em em) (To_em em) of
              (None, g1) \<Rightarrow> g1
            | (Some st, g1) \<Rightarrow>
                let (f, t) = edge_key g1 (From_em em) (To_em em) in
                g1\<lparr>edgeMeta := put_store (edgeMeta g1) f t
                       (fill_store (Entries_em em) (Schema_em em) st)\<rparr>))"

fun add_edges :: "('n, 'e) Graph \<Rightarrow> 'e EdgeData list \<Rightarrow> error + ('n, 'e) Graph" where
  "add_edges g [] = Inr g"
| "add_edges g (e # es) =
     (case AddEdge g (From_ed e) (To_ed e) (Data_ed e) (Weight_ed e) of
        Inl NilMapPanic \<Rightarrow> Inl NilMapPanic
      | Inl err \<Rightarrow> Inl (UnmarshalEdge (From_ed e) (To_ed e) err)
      | Inr g' \<Rightarrow> add_edges g' es)"

definition Unmarshal ::
  "(json \<Rightarrow> 'n option) \<Rightarrow> (json \<Rightarrow> 'e option) \<Rightarrow> json \<Rightarrow> error + ('n, 'e) Graph" where
  "Unmarshal decN decE data =
     (case json_Unmarshal decN decE data of
        None \<Rightarrow> Inl BadJSON
      | Some snap \<Rightarrow>
          if Version snap \<noteq> 1 then Inl (UnsupportedVersion (Version snap))
          else
            let g = NewGraph (Directed_snap snap) in
            (case (case Graph_snap snap of
                     None \<Rightarrow> Inr g
                   | Some gd \<Rightarrow>
                       add_edges (fold (\<lambda>n g. AddNode g (ID_nd n) (Data_nd n)) (Nodes_gd gd) g)
                         (Edges_gd gd)) of
               Inl err \<Rightarrow> Inl err
             | Inr g1 \<Rightarrow>
                 (case Meta_snap snap of
                    None \<Rightarrow> Inr g1
                  | Some md \<Rightarrow>
                      Inr (fold apply_edge_meta (Edges_md md)
                             (fold apply_node_meta (Nodes_md md) g1)))))"

section \<open>A snapshot round trip\<close>

text \<open>
  The examples below use string payloads. A Go string is encoded as a JSON string;
  \<open>enc_scalar\<close> is the encoding of the scalar metadata values (nil, strings, booleans
  and numbers); the examples hold no other value.
\<close>

definition enc_string :: "string \<Rightarrow> json option" where
  "enc_string s = Some (JStr s)"

definition enc_scalar :: "goval \<Rightarrow> json option" where
  "enc_scalar v =
     (case v of
        VNil \<Rightarrow> Some JNull
      | VString s \<Rightarrow> Some (JStr s)
      | VBool b \<Rightarrow> Some (JBool b)
      | VInt k n \<Rightarrow> Some (JNum (real_of_int n))
      | VFloat k r \<Rightarrow> Some (JNum r)
      | _ \<Rightarrow> None)"

definition g_ab :: "(string, string) Graph" where
  \<comment> \<open>\<open>g := NewGraph(true); g.AddNode("a", "A"); g.AddNode("b", "B");
      g.AddEdge("a", "b", "ab", 1.0)\<close>\<close>
  "g_ab = AddEdge_dropped (AddNode (AddNode (NewGraph True) ''a'' ''A'') ''b'' ''B'') ''a'' ''b'' ''ab'' 1"

definition Marshal_again :: "(string, string) Graph \<Rightarrow> (error + jsontext) option" where
  \<comment> \<open>\<open>Marshal(Unmarshal(Marshal(g)))\<close> with nil options; \<open>None\<close> when the first two steps
      do not both succeed\<close>
  "Marshal_again g =
     (case Marshal enc_string enc_string enc_scalar g None of
        Inr (Indented j) \<Rightarrow>
          (case Unmarshal dec_str dec_str j of
             Inr g' \<Rightarrow> Some (Marshal enc_string enc_string enc_scalar (g' :: (string, string) Graph) None)
           | Inl err \<Rightarrow> None)
      | _ \<Rightarrow> None)"

definition g_roundtrip :: "(string, string) Graph" where
  \<comment> \<open>the graph of \<open>TestUnmarshalRoundTrip\<close>; the two metadata entries are written the
      way \<open>Unmarshal\<close> writes an entry, through the accessors\<close>
  "g_roundtrip =
     apply_edge_meta
       \<lparr>From_em = ''a'', To_em = ''b'', Entries_em = [(''count'', VInt KInt 10)], Schema_em = None\<rparr>
       (apply_node_meta
          \<lparr>ID_nm = ''a'', Entries_nm = [(''lang'', VString ''go'')], Schema_nm = None\<rparr>
          (AddEdge_dropped (AddNode (AddNode (NewGraph True) ''a'' ''alpha'') ''b'' ''beta'')
             ''a'' ''b'' ''connects'' 2.5))"

lemma roundtrip_scenario:
  "Marshal_again g_roundtrip = Some (Marshal enc_string enc_string enc_scalar g_roundtrip None)
   \<and> isl (Marshal enc_string enc_string enc_scalar g_roundtrip None) = False"
  by code_simp

section \<open>Removing a node (graph.go)\<close>

text \<open>
  The maps \<open>out\<close> and \<open>in\<close> of a graph hold the same edges: \<open>out[f][t]\<close> is set exactly when
  \<open>in[t][f]\<close> is, to the same edge, and that edge has \<open>From = f\<close> and \<open>To = t\<close>.
  \<open>topology_ok\<close> says so for the association lists, which have one entry per key.
  \<open>NewGraph\<close> establishes it and \<open>AddNode\<close>, \<open>AddEdge\<close>, \<open>RemoveEdge\<close> and \<open>RemoveNode\<close> keep
  it (lemmas \<open>topology_ok_NewGraph\<close> to \<open>topology_ok_RemoveNode\<close>), so it holds for every
  graph that these operations build. \<open>topology_sem\<close> and \<open>maps_ok\<close> are the same property
  stated on the lookups.
\<close>

definition keys_ok :: "('k \<times> 'v) list \<Rightarrow> bool" where
  "keys_ok m = distinct (map fst m)"

definition topology_ok :: "('n, 'e) Graph \<Rightarrow> bool" where
  "topology_ok g =
     (keys_ok (out g) \<and> keys_ok (inn g)
      \<and> list_all (\<lambda>(f, m). keys_ok m
            \<and> list_all (\<lambda>(t, e). From e = f \<and> To e = t \<and> map_of (inner (inn g) t) f = Some e) m)
          (out g)
      \<and> list_all (\<lambda>(t, m). keys_ok m
            \<and> list_all (\<lambda>(f, e). map_of (inner (out g) f) t = Some e) m)
          (inn g))"


text \<open>
  Modelled from the spec: the removal of metadata records by \<open>RemoveNode\<close>. The
  \<open>RemoveNode\<close> of graph.go among the sources removes the node and its incident edges;
  that file is from before the metadata layer and removes no metadata, as its struct
  holds none. The \<open>RemoveNode\<close> that \<open>TestRemoveNodeCleansMetadata\<close> is written against is
  not among the sources. The spec says: removing a node removes every incident edge
  and every metadata record for that node and its edges. \<open>RemoveNode_meta\<close> is the
  \<open>RemoveNode\<close> of the source followed by the removal of \<open>nodeMeta[id]\<close> and of every
  \<open>edgeMeta[f][t]\<close> with \<open>f = id\<close> or \<open>t = id\<close> (the test checks that \<open>edgeMeta[id]\<close> is
  gone).
\<close>

definition RemoveNode_meta :: "('n, 'e) Graph \<Rightarrow> string \<Rightarrow> ('n, 'e) Graph" where
  "RemoveNode_meta g id' =
     (if \<not> HasNode g id' then g
      else (RemoveNode g id')
             \<lparr>nodeMeta := AList.delete id' (nodeMeta g),
              edgeMeta := map (\<lambda>(f, m). (f, AList.delete id' m)) (AList.delete id' (edgeMeta g))\<rparr>)"


definition topology_sem :: "('n, 'e) Graph \<Rightarrow> bool" where
  "topology_sem g =
     (keys_ok (out g) \<and> keys_ok (inn g)
      \<and> (\<forall>k. keys_ok (inner (out g) k)) \<and> (\<forall>k. keys_ok (inner (inn g) k))
      \<and> (\<forall>f t e. map_of (inner (out g) f) t = Some e
            \<longrightarrow> From e = f \<and> To e = t \<and> map_of (inner (inn g) t) f = Some e)
      \<and> (\<forall>t f e. map_of (inner (inn g) t) f = Some e \<longrightarrow> map_of (inner (out g) f) t = Some e))"

definition maps_ok ::
  "(string \<times> (string \<times> 'e Edge) list) list \<Rightarrow> (string \<times> (string \<times> 'e Edge) list) list \<Rightarrow> bool" where
  "maps_ok om im =
     (keys_ok om \<and> keys_ok im
      \<and> (\<forall>k. keys_ok (inner om k)) \<and> (\<forall>k. keys_ok (inner im k))
      \<and> (\<forall>f t e. map_of (inner om f) t = Some e
            \<longrightarrow> From e = f \<and> To e = t \<and> map_of (inner im t) f = Some e)
      \<and> (\<forall>t f e. map_of (inner im t) f = Some e \<longrightarrow> map_of (inner om f) t = Some e))"

definition g_kv :: "(string, string) Graph" where
  "g_kv =
     apply_edge_meta
       \<lparr>From_em = ''a'', To_em = ''b'', Entries_em = [(''key'', VString ''val'')], Schema_em = None\<rparr>
       (apply_node_meta
          \<lparr>ID_nm = ''a'', Entries_nm = [(''key'', VString ''val'')], Schema_nm = None\<rparr> g_ab)"


lemma inner_del2: "inner (del2 m k j) x = (if x = k then AList.delete j (inner m k) else inner m x)"
  by (auto simp: inner_def del2_def update_conv' split: option.splits)

lemma inner_fold_del2:
  "inner (fold (\<lambda>k m. del2 m k j) ks m0) x
     = (if x \<in> set ks then AList.delete j (inner m0 x) else inner m0 x)"
proof (induction ks arbitrary: m0)
  case Nil
  show ?case by simp
next
  case (Cons k ks)
  show ?case
    by (simp add: Cons.IH inner_del2 delete_idem)
qed

lemma inner_delete: "inner (AList.delete a m) x = (if x = a then [] else inner m x)"
  by (simp add: inner_def delete_conv')

lemma HasEdge_inner: "HasEdge g f t = (map_of (inner (out g) f) t \<noteq> None)"
  by (simp add: HasEdge_def inner_def split: option.splits)

lemma set_delete: "set (AList.delete a m) = {p \<in> set m. fst p \<noteq> a}"
  by (induction m) auto

lemma inn1_RemoveNode:
  "inner (fold (\<lambda>to m. del2 m to a) (map fst (inner (out g) a)) (inn g)) x
     = (if x \<in> fst ` set (inner (out g) a) then AList.delete a (inner (inn g) x) else inner (inn g) x)"
  by (simp add: inner_fold_del2)

lemma out_RemoveNode:
  assumes "HasNode g a"
  shows "inner (out (RemoveNode g a)) x =
           (if x = a then []
            else if x \<in> fst ` set (if a \<in> fst ` set (inner (out g) a)
                                     then AList.delete a (inner (inn g) a) else inner (inn g) a)
                 then AList.delete a (inner (out g) x)
            else inner (out g) x)"
  using assms
  by (simp add: RemoveNode_def Let_def inner_delete inner_fold_del2)

lemma inn_RemoveNode:
  assumes "HasNode g a"
  shows "inner (inn (RemoveNode g a)) x =
           (if x = a then []
            else if x \<in> fst ` set (inner (out g) a) then AList.delete a (inner (inn g) x)
            else inner (inn g) x)"
  using assms
  by (simp add: RemoveNode_def Let_def inner_delete inner_fold_del2)

lemma inner_mem: "p \<in> set (inner m k) \<Longrightarrow> (k, inner m k) \<in> set m"
  by (auto simp: inner_def split: option.splits dest: map_of_SomeD)

lemma topology_out:
  assumes "topology_ok g" "(t, e) \<in> set (inner (out g) f)"
  shows "From e = f \<and> To e = t \<and> map_of (inner (inn g) t) f = Some e"
proof -
  from assms(2) have "(f, inner (out g) f) \<in> set (out g)"
    by (rule inner_mem)
  with assms(1) have "list_all (\<lambda>(t, e). From e = f \<and> To e = t \<and> map_of (inner (inn g) t) f = Some e)
                        (inner (out g) f)"
    unfolding topology_ok_def list_all_iff by blast
  with assms(2) show ?thesis
    unfolding list_all_iff by blast
qed

lemma topology_inn:
  assumes "topology_ok g" "(f, e) \<in> set (inner (inn g) t)"
  shows "map_of (inner (out g) f) t = Some e"
proof -
  from assms(2) have "(t, inner (inn g) t) \<in> set (inn g)"
    by (rule inner_mem)
  with assms(1) have "list_all (\<lambda>(f, e). map_of (inner (out g) f) t = Some e) (inner (inn g) t)"
    unfolding topology_ok_def list_all_iff by blast
  with assms(2) show ?thesis
    unfolding list_all_iff by blast
qed

lemma topology_inn_edge:
  assumes "topology_ok g" "(f, e) \<in> set (inner (inn g) t)"
  shows "From e = f \<and> To e = t \<and> (t, e) \<in> set (inner (out g) f)"
proof -
  from assms have "map_of (inner (out g) f) t = Some e"
    by (rule topology_inn)
  then have m: "(t, e) \<in> set (inner (out g) f)"
    by (rule map_of_SomeD)
  with assms(1) show ?thesis
    by (simp add: topology_out)
qed

lemma topology_out_edge:
  assumes "topology_ok g" "(t, e) \<in> set (inner (out g) f)"
  shows "(f, e) \<in> set (inner (inn g) t)"
  using topology_out [OF assms] by (simp add: map_of_SomeD)

lemma RemoveNode_no_out_edge:
  assumes ok: "topology_ok g" and a: "HasNode g a"
    and m: "(t, e) \<in> set (inner (out (RemoveNode g a)) x)"
  shows "x \<noteq> a \<and> t \<noteq> a \<and> (t, e) \<in> set (inner (out g) x)"
proof -
  let ?I = "if a \<in> fst ` set (inner (out g) a)
            then AList.delete a (inner (inn g) a) else inner (inn g) a"
  from m have xa: "x \<noteq> a"
    by (auto simp: out_RemoveNode [OF a])
  from m xa have old: "(t, e) \<in> set (inner (out g) x)"
    by (auto simp: out_RemoveNode [OF a] set_delete split: if_splits)
  have "t \<noteq> a"
  proof
    assume ta: "t = a"
    with old ok have "(x, e) \<in> set (inner (inn g) a)"
      by (simp add: topology_out_edge)
    with xa have "(x, e) \<in> set ?I"
      by (simp add: set_delete)
    then have "x \<in> fst ` set ?I"
      by (rule image_eqI [rotated]) simp
    with m xa ta show False
      by (simp add: out_RemoveNode [OF a] set_delete)
  qed
  with xa old show ?thesis by simp
qed

lemma RemoveNode_no_in_edge:
  assumes ok: "topology_ok g" and a: "HasNode g a"
    and m: "(f, e) \<in> set (inner (inn (RemoveNode g a)) x)"
  shows "x \<noteq> a \<and> f \<noteq> a \<and> (f, e) \<in> set (inner (inn g) x)"
proof -
  from m have xa: "x \<noteq> a"
    by (auto simp: inn_RemoveNode [OF a])
  from m xa have old: "(f, e) \<in> set (inner (inn g) x)"
    by (auto simp: inn_RemoveNode [OF a] set_delete split: if_splits)
  have "f \<noteq> a"
  proof
    assume fa: "f = a"
    with old ok have "(x, e) \<in> set (inner (out g) a)"
      by (simp add: topology_inn_edge)
    then have "x \<in> fst ` set (inner (out g) a)"
      by (rule image_eqI [rotated]) simp
    with m xa fa show False
      by (simp add: inn_RemoveNode [OF a] set_delete)
  qed
  with xa old show ?thesis by simp
qed

lemma RemoveNode_HasEdge:
  assumes ok: "topology_ok g" and a: "HasNode g a"
  shows "\<not> HasEdge (RemoveNode g a) a x \<and> \<not> HasEdge (RemoveNode g a) x a"
proof -
  have "\<not> HasEdge (RemoveNode g a) a x"
    by (simp add: HasEdge_inner out_RemoveNode [OF a])
  moreover
  have "\<not> HasEdge (RemoveNode g a) x a"
  proof
    assume "HasEdge (RemoveNode g a) x a"
    then obtain e where "map_of (inner (out (RemoveNode g a)) x) a = Some e"
      by (auto simp: HasEdge_inner)
    then have "(a, e) \<in> set (inner (out (RemoveNode g a)) x)"
      by (rule map_of_SomeD)
    from RemoveNode_no_out_edge [OF ok a this] show False
      by simp
  qed
  ultimately show ?thesis ..
qed

lemma RemoveNode_edge_lists:
  assumes ok: "topology_ok g" and a: "HasNode g a"
    and e: "e \<in> set (OutEdges (RemoveNode g a) x) \<union> set (InEdges (RemoveNode g a) x)"
  shows "From e \<noteq> a \<and> To e \<noteq> a"
  using e
proof
  assume "e \<in> set (OutEdges (RemoveNode g a) x)"
  then obtain t where m: "(t, e) \<in> set (inner (out (RemoveNode g a)) x)"
    by (auto simp: OutEdges_def)
  from RemoveNode_no_out_edge [OF ok a m] topology_out [OF ok, of t e x]
  show ?thesis by simp
next
  assume "e \<in> set (InEdges (RemoveNode g a) x)"
  then obtain f where m: "(f, e) \<in> set (inner (inn (RemoveNode g a)) x)"
    by (auto simp: InEdges_def)
  from RemoveNode_no_in_edge [OF ok a m] topology_inn_edge [OF ok, of f e x]
  show ?thesis by simp
qed

lemma RemoveNode_HasNode: "\<not> HasNode (RemoveNode g a) a"
  by (simp add: RemoveNode_def HasNode_def Let_def delete_conv')

lemma RemoveNode_meta_topology:
  "nodes (RemoveNode_meta g a) = nodes (RemoveNode g a)
   \<and> out (RemoveNode_meta g a) = out (RemoveNode g a)
   \<and> inn (RemoveNode_meta g a) = inn (RemoveNode g a)
   \<and> Directed (RemoveNode_meta g a) = Directed (RemoveNode g a)"
  by (simp add: RemoveNode_meta_def RemoveNode_def)

lemma RemoveNode_meta_HasEdge: "HasEdge (RemoveNode_meta g a) = HasEdge (RemoveNode g a)"
  by (intro ext) (simp add: HasEdge_def RemoveNode_meta_topology)

lemma RemoveNode_meta_HasNode: "HasNode (RemoveNode_meta g a) = HasNode (RemoveNode g a)"
  by (intro ext) (simp add: HasNode_def RemoveNode_meta_topology)

lemma RemoveNode_meta_records:
  assumes a: "HasNode g a"
  shows "map_of (nodeMeta (RemoveNode_meta g a)) a = None
         \<and> map_of (edgeMeta (RemoveNode_meta g a)) a = None
         \<and> map_of (inner (edgeMeta (RemoveNode_meta g a)) x) a = None"
proof -
  let ?em = "map (\<lambda>(f, m). (f, AList.delete a m)) (AList.delete a (edgeMeta g))"
  have m: "map_of ?em k = map_option (AList.delete a) (map_of (AList.delete a (edgeMeta g)) k)" for k
    by (simp add: map_of_map)
  have "map_of (inner ?em x) a = None"
    by (cases "map_of (AList.delete a (edgeMeta g)) x") (simp_all add: inner_def m delete_conv')
  moreover have "map_of ?em a = None"
    by (simp add: m delete_conv')
  ultimately show ?thesis
    using a by (simp add: RemoveNode_meta_def delete_conv')
qed

lemma keys_ok_map_of: "keys_ok m \<Longrightarrow> (k, v) \<in> set m \<Longrightarrow> map_of m k = Some v"
  by (simp add: keys_ok_def)

lemma keys_ok_inner: "keys_ok m \<Longrightarrow> (k, v) \<in> set m \<Longrightarrow> inner m k = v"
  by (simp add: inner_def keys_ok_map_of)

lemma inner_cases: "inner m k = [] \<or> (k, inner m k) \<in> set m"
  by (auto simp: inner_def split: option.splits dest: map_of_SomeD)

lemma topology_keys_out:
  assumes "topology_ok g" "(f, m) \<in> set (out g)"
  shows "keys_ok m"
  using assms unfolding topology_ok_def list_all_iff by blast

lemma topology_keys_inn:
  assumes "topology_ok g" "(t, m) \<in> set (inn g)"
  shows "keys_ok m"
  using assms unfolding topology_ok_def list_all_iff by blast

lemma topology_sem_I:
  assumes ok: "topology_ok g"
  shows "topology_sem g"
proof -
  have k1: "keys_ok (inner (out g) k)" for k
    using inner_cases [of "out g" k]
  proof
    assume "inner (out g) k = []"
    then show ?thesis by (simp add: keys_ok_def)
  next
    assume "(k, inner (out g) k) \<in> set (out g)"
    with ok show ?thesis by (rule topology_keys_out)
  qed
  have k2: "keys_ok (inner (inn g) k)" for k
    using inner_cases [of "inn g" k]
  proof
    assume "inner (inn g) k = []"
    then show ?thesis by (simp add: keys_ok_def)
  next
    assume "(k, inner (inn g) k) \<in> set (inn g)"
    with ok show ?thesis by (rule topology_keys_inn)
  qed
  have o: "From e = f \<and> To e = t \<and> map_of (inner (inn g) t) f = Some e"
    if "map_of (inner (out g) f) t = Some e" for f t e
    using topology_out [OF ok map_of_SomeD [OF that]] .
  have i: "map_of (inner (out g) f) t = Some e"
    if "map_of (inner (inn g) t) f = Some e" for f t e
    using topology_inn [OF ok map_of_SomeD [OF that]] .
  from ok have ko: "keys_ok (out g)" and ki: "keys_ok (inn g)"
    by (simp_all add: topology_ok_def)
  show "topology_sem g"
    unfolding topology_sem_def
  proof (intro conjI allI impI)
    show "keys_ok (out g)" by (rule ko)
    show "keys_ok (inn g)" by (rule ki)
    show "keys_ok (inner (out g) k)" for k by (rule k1)
    show "keys_ok (inner (inn g) k)" for k by (rule k2)
    show "From e = f" if "map_of (inner (out g) f) t = Some e" for f t e
      using o [OF that] by simp
    show "To e = t" if "map_of (inner (out g) f) t = Some e" for f t e
      using o [OF that] by simp
    show "map_of (inner (inn g) t) f = Some e" if "map_of (inner (out g) f) t = Some e" for f t e
      using o [OF that] by simp
    show "map_of (inner (out g) f) t = Some e" if "map_of (inner (inn g) t) f = Some e" for f t e
      using i [OF that] .
  qed
qed

lemma topology_sem_D:
  assumes "topology_sem g"
  shows "keys_ok (out g)" "keys_ok (inn g)" "keys_ok (inner (out g) k)" "keys_ok (inner (inn g) k)"
    "map_of (inner (out g) f) t = Some e \<Longrightarrow> From e = f \<and> To e = t \<and> map_of (inner (inn g) t) f = Some e"
    "map_of (inner (inn g) t) f = Some e \<Longrightarrow> map_of (inner (out g) f) t = Some e"
  using assms unfolding topology_sem_def by blast+

lemma topology_sem_E:
  assumes s: "topology_sem g"
  shows "topology_ok g"
proof -
  note d = topology_sem_D [OF s]
  have a: "case x of (f, m) \<Rightarrow> keys_ok m
             \<and> list_all (\<lambda>(t, e). From e = f \<and> To e = t \<and> map_of (inner (inn g) t) f = Some e) m"
    if x: "x \<in> set (out g)" for x
  proof -
    obtain f m where fm: "x = (f, m)" by (cases x)
    with x d(1) have m: "inner (out g) f = m"
      by (simp add: keys_ok_inner)
    with d(3) [of f] have km: "keys_ok m" by simp
    have "case y of (t, e) \<Rightarrow> From e = f \<and> To e = t \<and> map_of (inner (inn g) t) f = Some e"
      if y: "y \<in> set m" for y
    proof -
      obtain t e where te: "y = (t, e)" by (cases y)
      with km y have "map_of (inner (out g) f) t = Some e"
        by (simp add: m keys_ok_map_of)
      from d(5) [OF this] show ?thesis
        by (simp add: te)
    qed
    with km show ?thesis
      by (simp add: fm list_all_iff)
  qed
  have b: "case x of (t, m) \<Rightarrow> keys_ok m
             \<and> list_all (\<lambda>(f, e). map_of (inner (out g) f) t = Some e) m"
    if x: "x \<in> set (inn g)" for x
  proof -
    obtain t m where tm: "x = (t, m)" by (cases x)
    with x d(2) have m: "inner (inn g) t = m"
      by (simp add: keys_ok_inner)
    with d(4) [of t] have km: "keys_ok m" by simp
    have "case y of (f, e) \<Rightarrow> map_of (inner (out g) f) t = Some e"
      if y: "y \<in> set m" for y
    proof -
      obtain f e where fe: "y = (f, e)" by (cases y)
      with km y have "map_of (inner (inn g) t) f = Some e"
        by (simp add: m keys_ok_map_of)
      from d(6) [OF this] show ?thesis
        by (simp add: fe)
    qed
    with km show ?thesis
      by (simp add: tm list_all_iff)
  qed
  from d(1) d(2) a b show "topology_ok g"
    by (simp add: topology_ok_def list_all_iff)
qed

lemma topology_ok_sem: "topology_ok g = topology_sem g"
  using topology_sem_I topology_sem_E by blast

lemma inner_update: "inner (AList.update k v m) x = (if x = k then v else inner m x)"
  by (simp add: inner_def update_conv')

lemma keys_ok_update: "keys_ok (AList.update k v m) = keys_ok m"
  by (auto simp: keys_ok_def update_keys)

lemma keys_ok_update_I: "keys_ok m \<Longrightarrow> keys_ok (AList.update k v m)"
  by (simp add: keys_ok_def distinct_update)

lemma keys_ok_delete: "keys_ok m \<Longrightarrow> keys_ok (AList.delete k m)"
  by (simp add: keys_ok_def distinct_delete)

lemma keys_ok_Nil: "keys_ok []"
  by (simp add: keys_ok_def)

lemma topology_ok_NewGraph: "topology_ok (NewGraph d)"
  by (simp add: topology_ok_def NewGraph_def keys_ok_def)

lemma topology_ok_AddNode:
  assumes "topology_ok g"
  shows "topology_ok (AddNode g i d)"
proof -
  have k: "keys_ok (out (AddNode g i d)) = keys_ok (out g)" "keys_ok (inn (AddNode g i d)) = keys_ok (inn g)"
    by (simp_all add: AddNode_def keys_ok_update)
  from assms show ?thesis
    unfolding topology_ok_sem topology_sem_def inner_AddNode_out inner_AddNode_inn k .
qed

lemma inner_put2:
  "put2 m k j v = Some m' \<Longrightarrow>
     inner m' x = (if x = k then AList.update j v (inner m k) else inner m x)"
  by (auto simp: put2_def inner_def update_conv' split: option.splits)

lemma keys_ok_put2: "put2 m k j v = Some m' \<Longrightarrow> keys_ok m \<Longrightarrow> keys_ok m'"
  by (auto simp: put2_def keys_ok_def distinct_update split: option.splits)

lemma keys_ok_del2: "keys_ok m \<Longrightarrow> keys_ok (del2 m k j)"
  by (auto simp: del2_def keys_ok_def distinct_update split: option.splits)

lemma keys_ok_fold_del2: "keys_ok m \<Longrightarrow> keys_ok (fold (\<lambda>k m. del2 m k j) ks m)"
  by (induction ks arbitrary: m) (simp_all add: keys_ok_del2)

lemma topology_sem_maps: "topology_sem g = maps_ok (out g) (inn g)"
  by (simp add: topology_sem_def maps_ok_def)

lemma topology_ok_maps: "topology_ok g = maps_ok (out g) (inn g)"
  by (simp add: topology_ok_sem topology_sem_maps)

lemma maps_ok_D:
  assumes "maps_ok om im"
  shows "keys_ok om" "keys_ok im" "keys_ok (inner om k)" "keys_ok (inner im k)"
    "map_of (inner om f) t = Some e \<Longrightarrow> From e = f \<and> To e = t \<and> map_of (inner im t) f = Some e"
    "map_of (inner im t) f = Some e \<Longrightarrow> map_of (inner om f) t = Some e"
  using assms unfolding maps_ok_def by blast+

lemma maps_ok_I:
  assumes "keys_ok om" "keys_ok im" "\<And>k. keys_ok (inner om k)" "\<And>k. keys_ok (inner im k)"
    "\<And>f t e. map_of (inner om f) t = Some e \<Longrightarrow> From e = f \<and> To e = t \<and> map_of (inner im t) f = Some e"
    "\<And>f t e. map_of (inner im t) f = Some e \<Longrightarrow> map_of (inner om f) t = Some e"
  shows "maps_ok om im"
  using assms unfolding maps_ok_def by blast

lemma map_of_inner_put2:
  "put2 m k j v = Some m' \<Longrightarrow>
     map_of (inner m' x) y = (if x = k \<and> y = j then Some v else map_of (inner m x) y)"
  by (simp add: inner_put2 update_conv')

lemma keys_ok_inner_put2:
  "put2 m k j v = Some m' \<Longrightarrow> keys_ok (inner m x) \<Longrightarrow> keys_ok (inner m k) \<Longrightarrow> keys_ok (inner m' x)"
  by (simp add: inner_put2 keys_ok_update)

lemma map_of_inner_del2:
  "map_of (inner (del2 m k j) x) y = (if x = k \<and> y = j then None else map_of (inner m x) y)"
  by (simp add: inner_del2 delete_conv')

lemma keys_ok_inner_del2:
  "keys_ok (inner m x) \<Longrightarrow> keys_ok (inner (del2 m k j) x)"
  by (auto simp: inner_del2 keys_ok_delete)

lemma maps_ok_put2:
  assumes ok: "maps_ok om im"
    and o1: "put2 om f t e = Some om1" and i1: "put2 im t f e = Some im1"
    and e: "From e = f" "To e = t"
  shows "maps_ok om1 im1"
proof (rule maps_ok_I)
  note d = maps_ok_D [OF ok]
  show "keys_ok om1" using o1 d(1) by (rule keys_ok_put2)
  show "keys_ok im1" using i1 d(2) by (rule keys_ok_put2)
  show "keys_ok (inner om1 k)" for k using o1 d(3) d(3) by (rule keys_ok_inner_put2)
  show "keys_ok (inner im1 k)" for k using i1 d(4) d(4) by (rule keys_ok_inner_put2)
  show "From e' = f' \<and> To e' = t' \<and> map_of (inner im1 t') f' = Some e'"
    if "map_of (inner om1 f') t' = Some e'" for f' t' e'
  proof (cases "f' = f \<and> t' = t")
    case True
    with that e show ?thesis
      by (simp add: map_of_inner_put2 [OF o1] map_of_inner_put2 [OF i1])
  next
    case False
    with that have "map_of (inner om f') t' = Some e'"
      by (simp add: map_of_inner_put2 [OF o1])
    from d(5) [OF this] False show ?thesis
      by (auto simp: map_of_inner_put2 [OF i1])
  qed
  show "map_of (inner om1 f') t' = Some e'"
    if "map_of (inner im1 t') f' = Some e'" for f' t' e'
  proof (cases "f' = f \<and> t' = t")
    case True
    with that show ?thesis
      by (simp add: map_of_inner_put2 [OF o1] map_of_inner_put2 [OF i1])
  next
    case False
    with that have "map_of (inner im t') f' = Some e'"
      by (auto simp: map_of_inner_put2 [OF i1])
    from d(6) [OF this] False show ?thesis
      by (auto simp: map_of_inner_put2 [OF o1])
  qed
qed

lemma maps_ok_del2:
  assumes ok: "maps_ok om im"
  shows "maps_ok (del2 om f t) (del2 im t f)"
proof (rule maps_ok_I)
  note d = maps_ok_D [OF ok]
  show "keys_ok (del2 om f t)" using d(1) by (rule keys_ok_del2)
  show "keys_ok (del2 im t f)" using d(2) by (rule keys_ok_del2)
  show "keys_ok (inner (del2 om f t) k)" for k using d(3) by (rule keys_ok_inner_del2)
  show "keys_ok (inner (del2 im t f) k)" for k using d(4) by (rule keys_ok_inner_del2)
  show "From e' = f' \<and> To e' = t' \<and> map_of (inner (del2 im t f) t') f' = Some e'"
    if "map_of (inner (del2 om f t) f') t' = Some e'" for f' t' e'
  proof -
    from that have n: "\<not> (f' = f \<and> t' = t)" and "map_of (inner om f') t' = Some e'"
      by (auto simp: map_of_inner_del2 split: if_splits)
    from d(5) [OF this(2)] n show ?thesis
      by (auto simp: map_of_inner_del2)
  qed
  show "map_of (inner (del2 om f t) f') t' = Some e'"
    if "map_of (inner (del2 im t f) t') f' = Some e'" for f' t' e'
  proof -
    from that have n: "\<not> (f' = f \<and> t' = t)" and "map_of (inner im t') f' = Some e'"
      by (auto simp: map_of_inner_del2 split: if_splits)
    from d(6) [OF this(2)] n show ?thesis
      by (auto simp: map_of_inner_del2)
  qed
qed

lemma topology_ok_AddEdge:
  assumes ok: "topology_ok g" and r: "AddEdge g f t d w = Inr g'"
  shows "topology_ok g'"
proof -
  let ?e = "\<lparr>Edge.From = f, Edge.To = t, Edge.Data = d, Weight = w\<rparr>"
  let ?rev = "\<lparr>Edge.From = t, Edge.To = f, Edge.Data = d, Weight = w\<rparr>"
  from r obtain out1 inn1 where o1: "put2 (out g) f t ?e = Some out1"
    and i1: "put2 (inn g) t f ?e = Some inn1"
    by (auto simp: AddEdge_def Let_def split: if_splits option.splits)
  from ok have "maps_ok (out g) (inn g)"
    by (simp add: topology_ok_maps)
  then have m1: "maps_ok out1 inn1"
    using o1 i1 by (rule maps_ok_put2) simp_all
  show ?thesis
  proof (cases "Directed g")
    case True
    with r o1 i1 have "g' = g\<lparr>out := out1, inn := inn1\<rparr>"
      by (auto simp: AddEdge_def Let_def split: if_splits)
    with m1 show ?thesis
      by (simp add: topology_ok_maps)
  next
    case False
    with r o1 i1 obtain out2 inn2 where o2: "put2 out1 t f ?rev = Some out2"
      and i2: "put2 inn1 f t ?rev = Some inn2" and g': "g' = g\<lparr>out := out2, inn := inn2\<rparr>"
      by (auto simp: AddEdge_def Let_def split: if_splits option.splits)
    from m1 o2 i2 have "maps_ok out2 inn2"
      by (rule maps_ok_put2) simp_all
    with g' show ?thesis
      by (simp add: topology_ok_maps)
  qed
qed

lemma topology_ok_RemoveEdge:
  assumes ok: "topology_ok g"
  shows "topology_ok (RemoveEdge g f t)"
proof -
  from ok have "maps_ok (out g) (inn g)"
    by (simp add: topology_ok_maps)
  then have m1: "maps_ok (del2 (out g) f t) (del2 (inn g) t f)"
    by (rule maps_ok_del2)
  then have "maps_ok (del2 (del2 (out g) f t) t f) (del2 (del2 (inn g) t f) f t)"
    by (rule maps_ok_del2)
  with m1 show ?thesis
    by (simp add: topology_ok_maps RemoveEdge_def Let_def)
qed

lemma map_of_out_RemoveNode:
  assumes ok: "topology_ok g" and a: "HasNode g a"
  shows "map_of (inner (out (RemoveNode g a)) x) y
           = (if x = a \<or> y = a then None else map_of (inner (out g) x) y)"
proof (cases "map_of (inner (out (RemoveNode g a)) x) y")
  case None
  show ?thesis
  proof (cases "x = a \<or> y = a")
    case True
    with None show ?thesis by simp
  next
    case False
    with None show ?thesis
      by (simp add: out_RemoveNode [OF a] delete_conv' split: if_splits)
  qed
next
  case (Some e)
  then have "(y, e) \<in> set (inner (out (RemoveNode g a)) x)"
    by (rule map_of_SomeD)
  from RemoveNode_no_out_edge [OF ok a this]
  have n: "x \<noteq> a" "y \<noteq> a" and m: "(y, e) \<in> set (inner (out g) x)"
    by simp_all
  from ok have "keys_ok (inner (out g) x)"
    by (simp add: topology_ok_maps maps_ok_D(3))
  with m have "map_of (inner (out g) x) y = Some e"
    by (simp add: keys_ok_map_of)
  with Some n show ?thesis by simp
qed

lemma map_of_inn_RemoveNode:
  assumes ok: "topology_ok g" and a: "HasNode g a"
  shows "map_of (inner (inn (RemoveNode g a)) x) y
           = (if x = a \<or> y = a then None else map_of (inner (inn g) x) y)"
proof (cases "map_of (inner (inn (RemoveNode g a)) x) y")
  case None
  show ?thesis
  proof (cases "x = a \<or> y = a")
    case True
    with None show ?thesis by simp
  next
    case False
    with None show ?thesis
      by (simp add: inn_RemoveNode [OF a] delete_conv' split: if_splits)
  qed
next
  case (Some e)
  then have "(y, e) \<in> set (inner (inn (RemoveNode g a)) x)"
    by (rule map_of_SomeD)
  from RemoveNode_no_in_edge [OF ok a this]
  have n: "x \<noteq> a" "y \<noteq> a" and m: "(y, e) \<in> set (inner (inn g) x)"
    by simp_all
  from ok have "keys_ok (inner (inn g) x)"
    by (simp add: topology_ok_maps maps_ok_D(4))
  with m have "map_of (inner (inn g) x) y = Some e"
    by (simp add: keys_ok_map_of)
  with Some n show ?thesis by simp
qed

lemma topology_ok_RemoveNode:
  assumes ok: "topology_ok g"
  shows "topology_ok (RemoveNode g a)"
proof (cases "HasNode g a")
  case False
  with ok show ?thesis
    by (simp add: RemoveNode_def)
next
  case a: True
  note d = maps_ok_D [OF ok [unfolded topology_ok_maps]]
  note mo = map_of_out_RemoveNode [OF ok a]
  note mi = map_of_inn_RemoveNode [OF ok a]
  have "maps_ok (out (RemoveNode g a)) (inn (RemoveNode g a))"
  proof (rule maps_ok_I)
    show "keys_ok (out (RemoveNode g a))"
      using a d(1) by (simp add: RemoveNode_def Let_def keys_ok_delete keys_ok_fold_del2)
    show "keys_ok (inn (RemoveNode g a))"
      using a d(2) by (simp add: RemoveNode_def Let_def keys_ok_delete keys_ok_fold_del2)
    show "keys_ok (inner (out (RemoveNode g a)) k)" for k
      using d(3) [of k] by (simp add: out_RemoveNode [OF a] keys_ok_delete keys_ok_Nil)
    show "keys_ok (inner (inn (RemoveNode g a)) k)" for k
      using d(4) [of k] by (simp add: inn_RemoveNode [OF a] keys_ok_delete keys_ok_Nil)
    show "From e = f \<and> To e = t \<and> map_of (inner (inn (RemoveNode g a)) t) f = Some e"
      if "map_of (inner (out (RemoveNode g a)) f) t = Some e" for f t e
    proof -
      from that have n: "f \<noteq> a" "t \<noteq> a" and "map_of (inner (out g) f) t = Some e"
        by (simp_all add: mo split: if_splits)
      from d(5) [OF this(3)] n show ?thesis
        by (simp add: mi)
    qed
    show "map_of (inner (out (RemoveNode g a)) f) t = Some e"
      if "map_of (inner (inn (RemoveNode g a)) t) f = Some e" for f t e
    proof -
      from that have n: "f \<noteq> a" "t \<noteq> a" and "map_of (inner (inn g) t) f = Some e"
        by (simp_all add: mi split: if_splits)
      from d(6) [OF this(3)] n show ?thesis
        by (simp add: mo)
    qed
  qed
  then show ?thesis
    by (simp add: topology_ok_maps)
qed


text \<open>
  C8. For every graph (one that satisfies \<open>topology_ok\<close>, as every graph built by the
  operations does) and every node a present in it, after \<open>RemoveNode(a)\<close>: a is not a
  node, \<open>HasEdge(a, x)\<close> and \<open>HasEdge(x, a)\<close> are false for every x, and no edge in any
  node's out- or in-edge list has a as an endpoint. This part is about the
  \<open>RemoveNode\<close> of the source. With the removal of metadata modelled from the spec
  (\<open>RemoveNode_meta\<close>, which has the same \<open>nodes\<close>, \<open>out\<close> and \<open>in\<close>), the metadata record
  of a and of every edge touching a is removed, the accessors return nil for a and
  for every edge touching a, and a node added again under the ID a starts with a new,
  empty store.
\<close>

theorem RemoveNode_removes_edges_and_metadata:
  assumes "topology_ok g" and "HasNode g a"
  shows "\<not> HasNode (RemoveNode g a) a
       \<and> (\<forall>x. \<not> HasEdge (RemoveNode g a) a x \<and> \<not> HasEdge (RemoveNode g a) x a)
       \<and> (\<forall>x. \<forall>e \<in> set (OutEdges (RemoveNode g a) x) \<union> set (InEdges (RemoveNode g a) x).
              From e \<noteq> a \<and> To e \<noteq> a)
       \<and> nodes (RemoveNode_meta g a) = nodes (RemoveNode g a)
       \<and> out (RemoveNode_meta g a) = out (RemoveNode g a)
       \<and> inn (RemoveNode_meta g a) = inn (RemoveNode g a)
       \<and> map_of (nodeMeta (RemoveNode_meta g a)) a = None
       \<and> map_of (edgeMeta (RemoveNode_meta g a)) a = None
       \<and> (\<forall>x. map_of (inner (edgeMeta (RemoveNode_meta g a)) x) a = None)
       \<and> fst (NodeMeta (RemoveNode_meta g a) a) = None
       \<and> (\<forall>x. fst (EdgeMeta (RemoveNode_meta g a) a x) = None
              \<and> fst (EdgeMeta (RemoveNode_meta g a) x a) = None)
       \<and> (\<forall>d. fst (NodeMeta (AddNode (RemoveNode_meta g a) a d) a) = Some NewStore)"
proof -
  note ok = assms(1) and a = assms(2)
  have e: "\<not> HasEdge (RemoveNode g a) a x \<and> \<not> HasEdge (RemoveNode g a) x a" for x
    using ok a by (rule RemoveNode_HasEdge)
  have l: "\<forall>e \<in> set (OutEdges (RemoveNode g a) x) \<union> set (InEdges (RemoveNode g a) x).
              From e \<noteq> a \<and> To e \<noteq> a" for x
    using RemoveNode_edge_lists [OF ok a] by blast
  have n: "\<not> HasNode (RemoveNode_meta g a) a"
    by (simp add: RemoveNode_meta_HasNode RemoveNode_HasNode)
  then have nm: "fst (NodeMeta (RemoveNode_meta g a) a) = None"
    by (simp add: NodeMeta_def)
  have em: "fst (EdgeMeta (RemoveNode_meta g a) a x) = None
              \<and> fst (EdgeMeta (RemoveNode_meta g a) x a) = None" for x
    using e [of x] by (simp add: EdgeMeta_def RemoveNode_meta_HasEdge)
  have re: "fst (NodeMeta (AddNode (RemoveNode_meta g a) a d) a) = Some NewStore" for d
    using RemoveNode_meta_records [OF a]
    by (simp add: NodeMeta_def HasNode_AddNode meta_AddNode)
  from RemoveNode_HasNode [of g a] e l RemoveNode_meta_topology [of g a]
    RemoveNode_meta_records [OF a] nm em re
  show ?thesis
    by (intro conjI allI) simp_all
qed

theorem RemoveNode_removes_edges_and_metadata_witness:
  "topology_ok g_kv \<and> HasNode g_kv ''a'' \<and> HasEdge g_kv ''a'' ''b''
   \<and> map_of (nodeMeta g_kv) ''a'' = Some (Set_store NewStore ''key'' (VString ''val''))
   \<and> map_of (inner (edgeMeta g_kv) ''a'') ''b'' = Some (Set_store NewStore ''key'' (VString ''val''))
   \<and> \<not> HasNode (RemoveNode g_kv ''a'') ''a''
   \<and> \<not> HasEdge (RemoveNode g_kv ''a'') ''a'' ''b''
   \<and> InEdges (RemoveNode g_kv ''a'') ''b'' = []
   \<and> map_of (nodeMeta (RemoveNode_meta g_kv ''a'')) ''a'' = None
   \<and> map_of (edgeMeta (RemoveNode_meta g_kv ''a'')) ''a'' = None
   \<and> fst (NodeMeta (RemoveNode_meta g_kv ''a'') ''a'') = None
   \<and> fst (EdgeMeta (RemoveNode_meta g_kv ''a'') ''a'' ''b'') = None"
proof -
  have h: "topology_ok g_kv" "HasNode g_kv ''a''"
    by code_simp+
  have pre: "HasEdge g_kv ''a'' ''b''"
    "map_of (nodeMeta g_kv) ''a'' = Some (Set_store NewStore ''key'' (VString ''val''))"
    "map_of (inner (edgeMeta g_kv) ''a'') ''b'' = Some (Set_store NewStore ''key'' (VString ''val''))"
    "InEdges (RemoveNode g_kv ''a'') ''b'' = []"
    by code_simp+
  from RemoveNode_removes_edges_and_metadata [OF h] h pre show ?thesis
    by simp
qed

lemma RemoveNode_test_state:
  "RemoveNode_meta g_kv ''a'' = AddNode (NewGraph True) ''b'' ''B''"
  by code_simp

section \<open>RPC server (mcp)\<close>

text \<open>
  A \<open>json.RawMessage\<close> is a JSON tree, or \<open>None\<close> when the key is absent. A tool handler
  reads and changes the Manager and the files behind it; it is a function from the
  arguments and the state \<open>'st\<close> to its result and the new state, and its result is
  either an error or the value that \<open>json.Marshal\<close> turns into the text block. The
  message of an error (\<open>err.Error()\<close>) and the text of a result are given by the
  parameters \<open>err_text\<close> and \<open>render\<close>. The line written by \<open>log.Println\<close> is left out.
\<close>

record Request =
  JSONRPC_req :: string
  ID_req :: "json option"
  Method :: string
  Params :: "json option"

record RPCError =
  Code :: int
  Message :: string

record ServerInfo =
  Name_si :: string
  Version_si :: string

record InitializeResult =
  ProtocolVersion :: string
  ServerInfo :: ServerInfo
  Capabilities :: "unit option"

record ToolDefinition =
  Name_td :: string
  Description :: string
  InputSchema :: json

record ToolCallParams =
  Name :: string
  Arguments :: "json option"

record ContentBlock =
  Type_cb :: string
  Text :: string

record ToolCallResult =
  Content :: "ContentBlock list"
  IsError :: bool

datatype rpc_result =
    InitializeR InitializeResult
  | ToolsR "ToolDefinition list"
  | ToolCallR ToolCallResult

record Response =
  JSONRPC :: string
  ID_resp :: "json option"
  Result :: "rpc_result option"
  Error :: "RPCError option"

type_synonym 'st toolHandler = "json option \<Rightarrow> 'st \<Rightarrow> (error + json) \<times> 'st"

record 'st Server =
  tools :: "(string \<times> 'st toolHandler) list"
  defs :: "ToolDefinition list"

definition dec_ToolCallParams :: "json option \<Rightarrow> ToolCallParams option" where
  "dec_ToolCallParams raw =
     (case raw of
        None \<Rightarrow> None
      | Some j \<Rightarrow>
          do { fs \<leftarrow> dec_fields j;
               n \<leftarrow> dec_str (field fs ''name'');
               Some \<lparr>Name = n, Arguments = map_of fs ''arguments''\<rparr> })"

definition rpc_error :: "Request \<Rightarrow> int \<Rightarrow> string \<Rightarrow> Response" where
  "rpc_error req code msg =
     \<lparr>JSONRPC = ''2.0'', ID_resp = ID_req req, Result = None,
      Error = Some \<lparr>Code = code, Message = msg\<rparr>\<rparr>"

definition rpc_result :: "Request \<Rightarrow> rpc_result \<Rightarrow> Response" where
  "rpc_result req r = \<lparr>JSONRPC = ''2.0'', ID_resp = ID_req req, Result = Some r, Error = None\<rparr>"

definition handle ::
  "(error \<Rightarrow> string) \<Rightarrow> (json \<Rightarrow> string) \<Rightarrow> 'st Server \<Rightarrow> 'st \<Rightarrow> Request \<Rightarrow> Response option \<times> 'st" where
  "handle err_text render s st req =
     (if Method req = ''initialize'' then
        (Some (rpc_result req (InitializeR
           \<lparr>ProtocolVersion = ''2024-11-05'',
            ServerInfo = \<lparr>Name_si = ''spine-mcp'', Version_si = ''0.1.0''\<rparr>,
            Capabilities = Some ()\<rparr>)), st)
      else if Method req = ''notifications/initialized'' then (None, st)
      else if Method req = ''tools/list'' then (Some (rpc_result req (ToolsR (defs s))), st)
      else if Method req = ''tools/call'' then
        (case dec_ToolCallParams (Params req) of
           None \<Rightarrow> (Some (rpc_error req (- 32602) (''invalid params: '' @ err_text BadJSON)), st)
         | Some params \<Rightarrow>
             (case map_of (tools s) (Name params) of
                None \<Rightarrow> (Some (rpc_error req (- 32602) (''unknown tool: '' @ Name params)), st)
              | Some handler \<Rightarrow>
                  (case handler (Arguments params) st of
                     (Inl err, st') \<Rightarrow>
                       (Some (rpc_result req (ToolCallR
                          \<lparr>Content = [\<lparr>Type_cb = ''text'', Text = err_text err\<rparr>], IsError = True\<rparr>)),
                        st')
                   | (Inr r, st') \<Rightarrow>
                       (Some (rpc_result req (ToolCallR
                          \<lparr>Content = [\<lparr>Type_cb = ''text'', Text = render r\<rparr>], IsError = False\<rparr>)),
                        st'))))
      else (Some (rpc_error req (- 32601) (''method not found: '' @ Method req)), st))"

definition addTool ::
  "'st Server \<Rightarrow> string \<Rightarrow> string \<Rightarrow> json \<Rightarrow> 'st toolHandler \<Rightarrow> 'st Server" where
  "addTool s name description sch handler =
     s\<lparr>defs := defs s @ [\<lparr>Name_td = name, Description = description, InputSchema = sch\<rparr>],
       tools := AList.update name handler (tools s)\<rparr>"

text \<open>
  The tool \<open>save_graph\<close>: \<open>handleSaveGraph\<close> over \<open>Manager.Save\<close>. The state holds the
  Manager and the files of its directory; writing the file is taken to succeed.
\<close>

record World =
  mgr :: Manager
  files :: "(string \<times> jsontext) list"

definition graphPath :: "Manager \<Rightarrow> string \<Rightarrow> string" where
  "graphPath m name = dir m @ ''/'' @ name @ ''.json''"

definition enc_api_NodeData :: "api_NodeData \<Rightarrow> json option" where
  "enc_api_NodeData d = Some (JObj [(''label'', JStr (Label d)), (''status'', JStr (api_NodeData.Status d))])"

definition enc_api_EdgeData :: "api_EdgeData \<Rightarrow> json option" where
  "enc_api_EdgeData d = Some (JObj [(''label'', JStr (ELabel d))])"

definition Save :: "(goval \<Rightarrow> json option) \<Rightarrow> World \<Rightarrow> string \<Rightarrow> error option \<times> World" where
  "Save encA w name =
     (case getGraph (mgr w) name of
        Inl err \<Rightarrow> (Some err, w)
      | Inr g \<Rightarrow>
          (case Marshal enc_api_NodeData enc_api_EdgeData encA g
                  (Some \<lparr>NodeIDs = None, Graph_opt = True, Meta_opt = True, Schemas = True,
                          Indent = True\<rparr>) of
             Inl err \<Rightarrow> (Some err, w)
           | Inr data \<Rightarrow> (None, w\<lparr>files := AList.update (graphPath (mgr w) name) data (files w)\<rparr>)))"

definition handleSaveGraph :: "(goval \<Rightarrow> json option) \<Rightarrow> World toolHandler" where
  "handleSaveGraph encA args w =
     (case (case args of None \<Rightarrow> None
            | Some j \<Rightarrow> do { fs \<leftarrow> dec_fields j; dec_str (field fs ''name'') }) of
        None \<Rightarrow> (Inl BadJSON, w)
      | Some name \<Rightarrow>
          (case Save encA w name of
             (Some err, w') \<Rightarrow> (Inl err, w')
           | (None, w') \<Rightarrow> (Inr (JObj [(''ok'', JBool True)]), w')))"

text \<open>
  C7. For a \<open>tools/call\<close> request: when the named tool is registered and its handler
  returns an error, the response is a JSON-RPC result \<open>{content: [{type: "text",
  text: <error message>}], isError: true}\<close> with no error envelope; when the tool name
  is not registered, the response is a JSON-RPC error with code -32602 (as it is when
  the parameters cannot be decoded).
\<close>

theorem tools_call_error_routing:
  "Method req = ''tools/call'' \<longrightarrow>
     (dec_ToolCallParams (Params req) = None \<longrightarrow>
        (\<exists>msg. handle err_text render s st req = (Some (rpc_error req (- 32602) msg), st)))
     \<and> (\<forall>p. dec_ToolCallParams (Params req) = Some p \<longrightarrow>
          (map_of (tools s) (Name p) = None \<longrightarrow>
             handle err_text render s st req
               = (Some \<lparr>JSONRPC = ''2.0'', ID_resp = ID_req req, Result = None,
                        Error = Some \<lparr>Code = - 32602, Message = ''unknown tool: '' @ Name p\<rparr>\<rparr>, st))
          \<and> (\<forall>h err st'. map_of (tools s) (Name p) = Some h \<and> h (Arguments p) st = (Inl err, st') \<longrightarrow>
             handle err_text render s st req
               = (Some \<lparr>JSONRPC = ''2.0'', ID_resp = ID_req req,
                        Result = Some (ToolCallR
                          \<lparr>Content = [\<lparr>Type_cb = ''text'', Text = err_text err\<rparr>], IsError = True\<rparr>),
                        Error = None\<rparr>, st')))"
  by (auto simp: handle_def rpc_error_def rpc_result_def)

definition srv_save :: "World Server" where
  "srv_save =
     addTool \<lparr>tools = [], defs = []\<rparr> ''save_graph'' ''Persist a graph to disk''
       (JObj [(''type'', JStr ''object''),
              (''properties'', JObj [(''name'', JObj [(''type'', JStr ''string''),
                                                       (''description'', JStr ''Graph name'')])]),
              (''required'', JArr [JStr ''name''])])
       (handleSaveGraph enc_scalar)"


definition sample_err_text :: "error \<Rightarrow> string" where
  \<comment> \<open>the message of \<open>graph %q not open\<close> for a plain name; other errors are not used below\<close>
  "sample_err_text e =
     (case e of GraphNotOpen n \<Rightarrow> ''graph '' @ [CHR 0x22] @ n @ [CHR 0x22] @ '' not open'' | _ \<Rightarrow> [])"

definition w_empty :: World where
  "w_empty = \<lparr>mgr = \<lparr>dir = ''graphs'', graphs = []\<rparr>, files = []\<rparr>"

definition call_request :: "string \<Rightarrow> Request" where
  "call_request tool =
     \<lparr>JSONRPC_req = ''2.0'', ID_req = Some (JNum 7), Method = ''tools/call'',
      Params = Some (JObj [(''name'', JStr tool),
                           (''arguments'', JObj [(''name'', JStr ''never'')])])\<rparr>"

lemma call_request_params:
  "dec_ToolCallParams (Params (call_request tool))
     = Some \<lparr>Name = tool, Arguments = Some (JObj [(''name'', JStr ''never'')])\<rparr>"
  by (simp add: call_request_def dec_ToolCallParams_def dec_fields_def dec_str_def field_def)

lemma save_never_opened:
  "handleSaveGraph enc_scalar (Some (JObj [(''name'', JStr ''never'')])) w_empty
     = (Inl (GraphNotOpen ''never''), w_empty)"
  by (simp add: handleSaveGraph_def dec_fields_def dec_str_def field_def Save_def getGraph_def
      w_empty_def)

theorem tools_call_error_routing_witness:
  "Method (call_request ''save_graph'') = ''tools/call''
   \<and> handle sample_err_text (\<lambda>j. []) srv_save w_empty (call_request ''save_graph'')
       = (Some \<lparr>JSONRPC = ''2.0'', ID_resp = Some (JNum 7),
                Result = Some (ToolCallR
                  \<lparr>Content = [\<lparr>Type_cb = ''text'',
                               Text = sample_err_text (GraphNotOpen ''never'')\<rparr>],
                   IsError = True\<rparr>),
                Error = None\<rparr>, w_empty)
   \<and> handle sample_err_text (\<lambda>j. []) srv_save w_empty (call_request ''no_such_tool'')
       = (Some \<lparr>JSONRPC = ''2.0'', ID_resp = Some (JNum 7), Result = None,
                Error = Some \<lparr>Code = - 32602, Message = ''unknown tool: no_such_tool''\<rparr>\<rparr>, w_empty)"
proof -
  have m: "\<And>tool. Method (call_request tool) = ''tools/call''"
    and i: "\<And>tool. ID_req (call_request tool) = Some (JNum 7)"
    by (simp_all add: call_request_def)
  have t1: "map_of (tools srv_save) ''save_graph'' = Some (handleSaveGraph enc_scalar)"
    and t2: "map_of (tools srv_save) ''no_such_tool'' = None"
    by (simp_all add: srv_save_def addTool_def)
  from tools_call_error_routing
         [of "call_request ''save_graph''" sample_err_text "\<lambda>j. []" srv_save w_empty]
       tools_call_error_routing
         [of "call_request ''no_such_tool''" sample_err_text "\<lambda>j. []" srv_save w_empty]
       m i t1 t2 call_request_params save_never_opened
  show ?thesis
    by simp
qed

end
